theory Spec2Isabelle
  imports Complex_Main "HOL-Library.AList"
begin

section \<open>Values of the JavaScript runtime\<close>

text \<open>
  The order book engine is JavaScript. Its numbers are IEEE doubles, modelled as the reals
  they denote. The sums, differences, products and quotients of the two ladder walks
  (\<open>getAccumulatedQuantityToPrice\<close>, \<open>getMarketImpact\<close>) are the rounded operations
  \<open>fadd\<close>, \<open>fsub\<close>, \<open>fmul\<close>, \<open>fdiv\<close>: the exact result rounded to the nearest
  double, ties to even. Magnitudes from \<open>2 ^ 1024\<close> on, where a double overflows, and
  negative zero are outside the model. \<open>getSpread\<close> and \<open>getMidPrice\<close> are one
  expression on two stored prices and are written with the exact operation.
  The three non-finite results that a division of this program can produce (\<open>NaN\<close>,
  \<open>Infinity\<close>, \<open>-Infinity\<close>) are kept as values of \<open>jsnum\<close>, which is the type of the
  two result fields that the code computes with an unguarded division.

  Update ids are integers (below \<open>2 ^ 53\<close>, where the arithmetic of doubles on them is
  exact), timestamps (\<open>Date.now()\<close>) are integers handed to every operation as the
  argument \<open>now\<close>: all readings of the clock within one call are one value.
\<close>

text \<open>
  The spacing of the doubles around \<open>x\<close>: \<open>2 ^ (e - 52)\<close> for
  \<open>2 ^ e \<le> \<bar>x\<bar> < 2 ^ (e + 1)\<close>, and \<open>2 ^ - 1074\<close> below \<open>2 ^ - 1022\<close>. The exponent is
  found by halving or doubling, at most as often as a double has exponents.
\<close>

function ulpUp :: "nat \<Rightarrow> real \<Rightarrow> real \<Rightarrow> real" where
  "ulpUp fuel u x = (if fuel = 0 \<or> x < 2 then u else ulpUp (fuel - 1) (2 * u) (x / 2))"
  by pat_completeness auto
termination
  by (relation "measure (\<lambda>(fuel, u, x). fuel)") auto

function ulpDown :: "nat \<Rightarrow> real \<Rightarrow> real \<Rightarrow> real" where
  "ulpDown fuel u x = (if fuel = 0 \<or> 1 \<le> x then u else ulpDown (fuel - 1) (u / 2) (2 * x))"
  by pat_completeness auto
termination
  by (relation "measure (\<lambda>(fuel, u, x). fuel)") auto

declare ulpUp.simps [simp del] ulpDown.simps [simp del]

definition ulp :: "real \<Rightarrow> real" where
  "ulp x =
     (if 1 \<le> \<bar>x\<bar> then ulpUp 1023 (1 / 2 ^ 52) \<bar>x\<bar> else ulpDown 1022 (1 / 2 ^ 52) \<bar>x\<bar>)"

text \<open>The nearest integer, the even one of two that are equally near.\<close>

definition roundEven :: "real \<Rightarrow> int" where
  "roundEven y =
     (if y - of_int \<lfloor>y\<rfloor> < 1 / 2 then \<lfloor>y\<rfloor>
      else if 1 / 2 < y - of_int \<lfloor>y\<rfloor> then \<lfloor>y\<rfloor> + 1
      else if even \<lfloor>y\<rfloor> then \<lfloor>y\<rfloor> else \<lfloor>y\<rfloor> + 1)"

text \<open>
  The double nearest to a real. A decimal literal \<open>d\<close> of the source, and a decimal
  string that \<open>parseFloat\<close> reads, is the double \<open>rnd d\<close>.
\<close>

definition rnd :: "real \<Rightarrow> real" where
  "rnd x = (if x = 0 then 0 else of_int (roundEven (x / ulp x)) * ulp x)"

definition fadd :: "real \<Rightarrow> real \<Rightarrow> real" where
  "fadd a b = rnd (a + b)"

definition fsub :: "real \<Rightarrow> real \<Rightarrow> real" where
  "fsub a b = rnd (a - b)"

definition fmul :: "real \<Rightarrow> real \<Rightarrow> real" where
  "fmul a b = rnd (a * b)"

text \<open>\<open>a / b\<close> for a divisor that is not 0.\<close>

definition fdiv :: "real \<Rightarrow> real \<Rightarrow> real" where
  "fdiv a b = rnd (a / b)"

datatype jsnum = Num real | NaN | PosInf | NegInf

text \<open>\<open>a / b\<close> on two finite numbers.\<close>

definition js_div :: "real \<Rightarrow> real \<Rightarrow> jsnum" where
  "js_div a b =
     (if b \<noteq> 0 then Num (fdiv a b)
      else if a = 0 then NaN
      else if 0 < a then PosInf else NegInf)"

fun js_minus :: "jsnum \<Rightarrow> jsnum \<Rightarrow> jsnum" where
  "js_minus (Num a) (Num b) = Num (fsub a b)"
| "js_minus NaN y = NaN"
| "js_minus x NaN = NaN"
| "js_minus PosInf PosInf = NaN"
| "js_minus NegInf NegInf = NaN"
| "js_minus PosInf y = PosInf"
| "js_minus NegInf y = NegInf"
| "js_minus (Num a) PosInf = NegInf"
| "js_minus (Num a) NegInf = PosInf"

fun js_neg :: "jsnum \<Rightarrow> jsnum" where
  "js_neg (Num a) = Num (- a)"
| "js_neg NaN = NaN"
| "js_neg PosInf = NegInf"
| "js_neg NegInf = PosInf"

fun js_divide :: "jsnum \<Rightarrow> jsnum \<Rightarrow> jsnum" where
  "js_divide (Num a) (Num b) = js_div a b"
| "js_divide NaN y = NaN"
| "js_divide x NaN = NaN"
| "js_divide (Num a) y = Num 0"
| "js_divide PosInf (Num b) = (if 0 \<le> b then PosInf else NegInf)"
| "js_divide NegInf (Num b) = (if 0 \<le> b then NegInf else PosInf)"
| "js_divide x y = NaN"

fun js_times :: "jsnum \<Rightarrow> jsnum \<Rightarrow> jsnum" where
  "js_times (Num a) (Num b) = Num (fmul a b)"
| "js_times NaN y = NaN"
| "js_times x NaN = NaN"
| "js_times (Num a) y = (if a = 0 then NaN else if 0 < a then y else js_neg y)"
| "js_times x (Num b) = (if b = 0 then NaN else if 0 < b then x else js_neg x)"
| "js_times PosInf y = y"
| "js_times NegInf y = js_neg y"

text \<open>\<open>x || 0\<close> on a number: \<open>NaN\<close> and \<open>0\<close> are falsy.\<close>

fun js_or_zero :: "jsnum \<Rightarrow> jsnum" where
  "js_or_zero NaN = Num 0"
| "js_or_zero x = x"

text \<open>
  A value that \<open>JSON.parse\<close> can hand to the validators, with \<open>undefined\<close> for what a
  property read finds missing. \<open>JObj\<close> carries the properties of the object.
\<close>

datatype json =
    JUndefined
  | JNull
  | JBool bool
  | JNum real
  | JStr string
  | JArr "json list"
  | JObj "(string \<times> json) list"

fun truthy :: "json \<Rightarrow> bool" where
  "truthy JUndefined = False"
| "truthy JNull = False"
| "truthy (JBool b) = b"
| "truthy (JNum r) = (r \<noteq> 0)"
| "truthy (JStr s) = (s \<noteq> [])"
| "truthy (JArr xs) = True"
| "truthy (JObj kvs) = True"

fun typeof_string :: "json \<Rightarrow> bool" where
  "typeof_string (JStr s) = True"
| "typeof_string v = False"

fun isArray :: "json \<Rightarrow> bool" where
  "isArray (JArr xs) = True"
| "isArray v = False"

definition digit_char :: "nat \<Rightarrow> char" where
  "digit_char n = ''0123456789'' ! (n mod 10)"

function show_nat :: "nat \<Rightarrow> string" where
  "show_nat n = (if n < 10 then [digit_char n] else show_nat (n div 10) @ [digit_char (n mod 10)])"
  by pat_completeness auto
termination
  by (relation "measure (\<lambda>n. n)") auto

text \<open>\<open>v[i]\<close>: an element of an array, a character of a string, a property of an object.\<close>

fun js_index :: "json \<Rightarrow> nat \<Rightarrow> json" where
  "js_index (JArr xs) i = (if i < length xs then xs ! i else JUndefined)"
| "js_index (JStr s) i = (if i < length s then JStr [s ! i] else JUndefined)"
| "js_index (JObj kvs) i = (case map_of kvs (show_nat i) of Some v \<Rightarrow> v | None \<Rightarrow> JUndefined)"
| "js_index v i = JUndefined"

section \<open>PriceLevel\<close>

record PriceLevel =
  price :: real
  quantity :: real
  count :: int
  timestamp :: int

text \<open>
  \<open>new PriceLevel(price, quantity, count)\<close>. The constructor passes its arguments
  through \<open>parseFloat\<close> and \<open>parseInt\<close>, which return a number as it is.
\<close>

definition new_PriceLevel :: "int \<Rightarrow> real \<Rightarrow> real \<Rightarrow> int \<Rightarrow> PriceLevel" where
  "new_PriceLevel now p q c = \<lparr>price = p, quantity = q, count = c, timestamp = now\<rparr>"

definition level_update :: "int \<Rightarrow> real \<Rightarrow> int \<Rightarrow> PriceLevel \<Rightarrow> PriceLevel" where
  "level_update now q c l = l\<lparr>quantity := q, count := c, timestamp := now\<rparr>"

section \<open>OrderBook\<close>

text \<open>
  A side is a JavaScript \<open>Map\<close> from \<open>price.toString()\<close> to the level: an association
  list in insertion order. The key of a number is the number itself (\<open>toString\<close> is
  injective on finite numbers). \<open>Map.set\<close> is \<open>AList.update\<close> (replace in place, or
  append), \<open>Map.delete\<close> is \<open>AList.delete\<close>.
\<close>

type_synonym side = "(real \<times> PriceLevel) list"

record OrderBook =
  symbol :: string
  bids :: side
  asks :: side
  lastUpdateId :: int
  lastUpdateTime :: int

definition new_OrderBook :: "int \<Rightarrow> string \<Rightarrow> OrderBook" where
  "new_OrderBook now name =
     \<lparr>symbol = name, bids = [], asks = [], lastUpdateId = 0, lastUpdateTime = now\<rparr>"

definition addBid :: "int \<Rightarrow> real \<Rightarrow> real \<Rightarrow> int \<Rightarrow> OrderBook \<Rightarrow> OrderBook" where
  "addBid now p q c ob =
     (if 0 < q then ob\<lparr>bids := AList.update p (new_PriceLevel now p q c) (bids ob)\<rparr>
      else ob\<lparr>bids := AList.delete p (bids ob)\<rparr>)"

definition addAsk :: "int \<Rightarrow> real \<Rightarrow> real \<Rightarrow> int \<Rightarrow> OrderBook \<Rightarrow> OrderBook" where
  "addAsk now p q c ob =
     (if 0 < q then ob\<lparr>asks := AList.update p (new_PriceLevel now p q c) (asks ob)\<rparr>
      else ob\<lparr>asks := AList.delete p (asks ob)\<rparr>)"

definition updateBid :: "int \<Rightarrow> real \<Rightarrow> real \<Rightarrow> int \<Rightarrow> OrderBook \<Rightarrow> OrderBook" where
  "updateBid now p q c ob =
     (case map_of (bids ob) p of
        Some l \<Rightarrow>
          (if 0 < q then ob\<lparr>bids := AList.update p (level_update now q c l) (bids ob)\<rparr>
           else ob\<lparr>bids := AList.delete p (bids ob)\<rparr>)
      | None \<Rightarrow> ob)"

definition updateAsk :: "int \<Rightarrow> real \<Rightarrow> real \<Rightarrow> int \<Rightarrow> OrderBook \<Rightarrow> OrderBook" where
  "updateAsk now p q c ob =
     (case map_of (asks ob) p of
        Some l \<Rightarrow>
          (if 0 < q then ob\<lparr>asks := AList.update p (level_update now q c l) (asks ob)\<rparr>
           else ob\<lparr>asks := AList.delete p (asks ob)\<rparr>)
      | None \<Rightarrow> ob)"

definition updateLastUpdateId :: "int \<Rightarrow> int \<Rightarrow> OrderBook \<Rightarrow> OrderBook" where
  "updateLastUpdateId now updateId ob = ob\<lparr>lastUpdateId := updateId, lastUpdateTime := now\<rparr>"

definition clear :: "int \<Rightarrow> OrderBook \<Rightarrow> OrderBook" where
  "clear now ob = ob\<lparr>bids := [], asks := [], lastUpdateId := 0, lastUpdateTime := now\<rparr>"

text \<open>
  \<open>Array.from(side.values()).sort(cmp)\<close>: the sort is stable. With
  \<open>(a, b) => b.price - a.price\<close> it orders by descending price, with
  \<open>(a, b) => a.price - b.price\<close> by ascending price.
\<close>

definition sortedBids :: "OrderBook \<Rightarrow> PriceLevel list" where
  "sortedBids ob = sort_key (\<lambda>l. - price l) (map snd (bids ob))"

definition sortedAsks :: "OrderBook \<Rightarrow> PriceLevel list" where
  "sortedAsks ob = sort_key price (map snd (asks ob))"

text \<open>
  \<open>xs.slice(0, n)\<close> for an integer \<open>n\<close>: a negative \<open>n\<close> counts from the end.
\<close>

definition slice0 :: "int \<Rightarrow> 'a list \<Rightarrow> 'a list" where
  "slice0 n xs = (if 0 \<le> n then take (nat n) xs else take (nat (int (length xs) + n)) xs)"

text \<open>
  \<open>getBids(limit = null)\<close>: \<open>None\<close> is \<open>null\<close>; \<open>if (limit)\<close> is false for
  \<open>null\<close> and for \<open>0\<close>. \<open>toJSON\<close> copies the four fields of a level.
\<close>

definition getBids :: "int option \<Rightarrow> OrderBook \<Rightarrow> PriceLevel list" where
  "getBids limit ob =
     (case limit of
        None \<Rightarrow> sortedBids ob
      | Some n \<Rightarrow> if n \<noteq> 0 then slice0 n (sortedBids ob) else sortedBids ob)"

definition getAsks :: "int option \<Rightarrow> OrderBook \<Rightarrow> PriceLevel list" where
  "getAsks limit ob =
     (case limit of
        None \<Rightarrow> sortedAsks ob
      | Some n \<Rightarrow> if n \<noteq> 0 then slice0 n (sortedAsks ob) else sortedAsks ob)"

text \<open>\<open>xs[0]\<close>, \<open>undefined\<close> as \<open>None\<close>.\<close>

definition first :: "'a list \<Rightarrow> 'a option" where
  "first xs = (case xs of [] \<Rightarrow> None | x # _ \<Rightarrow> Some x)"

definition getSpread :: "OrderBook \<Rightarrow> real option" where
  "getSpread ob =
     (case (first (getBids (Some 1) ob), first (getAsks (Some 1) ob)) of
        (Some bestBid, Some bestAsk) \<Rightarrow> Some (price bestAsk - price bestBid)
      | _ \<Rightarrow> None)"

definition getMidPrice :: "OrderBook \<Rightarrow> real option" where
  "getMidPrice ob =
     (case (first (getBids (Some 1) ob), first (getAsks (Some 1) ob)) of
        (Some bestBid, Some bestAsk) \<Rightarrow> Some ((price bestBid + price bestAsk) / 2)
      | _ \<Rightarrow> None)"

record snapshot =
  ss_symbol :: string
  ss_lastUpdateId :: int
  ss_lastUpdateTime :: int
  ss_bids :: "PriceLevel list"
  ss_asks :: "PriceLevel list"
  ss_spread :: "real option"
  ss_midPrice :: "real option"
  ss_totalBids :: nat
  ss_totalAsks :: nat

definition getSnapshot :: "int option \<Rightarrow> OrderBook \<Rightarrow> snapshot" where
  "getSnapshot limit ob =
     \<lparr>ss_symbol = symbol ob,
      ss_lastUpdateId = lastUpdateId ob,
      ss_lastUpdateTime = lastUpdateTime ob,
      ss_bids = getBids limit ob,
      ss_asks = getAsks limit ob,
      ss_spread = getSpread ob,
      ss_midPrice = getMidPrice ob,
      ss_totalBids = length (bids ob),
      ss_totalAsks = length (asks ob)\<rparr>"

subsection \<open>getAccumulatedQuantityToPrice\<close>

text \<open>
  The two loops of \<open>getAccumulatedQuantityToPrice\<close>, with the pair
  \<open>(accQty, accCost)\<close> as the loop state; \<open>break\<close> returns the state as it is.
\<close>

fun accBidLoop :: "real \<Rightarrow> PriceLevel list \<Rightarrow> real \<times> real \<Rightarrow> real \<times> real" where
  "accBidLoop targetPrice [] acc = acc"
| "accBidLoop targetPrice (l # ls) (accQty, accCost) =
     (if targetPrice \<le> price l
      then accBidLoop targetPrice ls
             (fadd accQty (quantity l), fadd accCost (fmul (quantity l) (price l)))
      else (accQty, accCost))"

fun accAskLoop :: "real \<Rightarrow> PriceLevel list \<Rightarrow> real \<times> real \<Rightarrow> real \<times> real" where
  "accAskLoop targetPrice [] acc = acc"
| "accAskLoop targetPrice (l # ls) (accQty, accCost) =
     (if price l \<le> targetPrice
      then accAskLoop targetPrice ls
             (fadd accQty (quantity l), fadd accCost (fmul (quantity l) (price l)))
      else (accQty, accCost))"

record accumulated =
  acc_quantity :: real
  acc_cost :: real
  acc_averagePrice :: real

record accumulatedToPrice =
  ap_targetPrice :: real
  ap_bids :: accumulated
  ap_asks :: accumulated
  ap_total :: accumulated

definition accumulated_of :: "real \<Rightarrow> real \<Rightarrow> accumulated" where
  "accumulated_of q c =
     \<lparr>acc_quantity = q, acc_cost = c, acc_averagePrice = (if 0 < q then fdiv c q else 0)\<rparr>"

definition getAccumulatedQuantityToPrice :: "real \<Rightarrow> string \<Rightarrow> OrderBook \<Rightarrow> accumulatedToPrice" where
  "getAccumulatedQuantityToPrice targetPrice sel ob =
     (let (accBidQty, accBidCost) =
            (if sel = ''both'' \<or> sel = ''bids''
             then accBidLoop targetPrice (sortedBids ob) (0, 0) else (0, 0));
          (accAskQty, accAskCost) =
            (if sel = ''both'' \<or> sel = ''asks''
             then accAskLoop targetPrice (sortedAsks ob) (0, 0) else (0, 0))
      in \<lparr>ap_targetPrice = targetPrice,
          ap_bids = accumulated_of accBidQty accBidCost,
          ap_asks = accumulated_of accAskQty accAskCost,
          ap_total = accumulated_of (fadd accBidQty accAskQty) (fadd accBidCost accAskCost)\<rparr>)"

subsection \<open>getMarketImpact\<close>

record consumedLevel =
  lc_price :: real
  lc_quantity :: real
  lc_cost :: real

text \<open>
  The loop over the sorted opposite side, the same in both branches of
  \<open>getMarketImpact\<close>. The loop state is
  \<open>(remainingSize, totalCost, levelsConsumed, finalPrice)\<close>.
\<close>

type_synonym impactState = "real \<times> real \<times> consumedLevel list \<times> real"

fun consumeLoop :: "PriceLevel list \<Rightarrow> impactState \<Rightarrow> impactState" where
  "consumeLoop [] st = st"
| "consumeLoop (l # ls) (remainingSize, totalCost, levelsConsumed, finalPrice) =
     (if remainingSize \<le> 0 then (remainingSize, totalCost, levelsConsumed, finalPrice)
      else
        let consumed = min remainingSize (quantity l)
        in consumeLoop ls
             (fsub remainingSize consumed,
              fadd totalCost (fmul consumed (price l)),
              levelsConsumed @
                [\<lparr>lc_price = price l, lc_quantity = consumed,
                  lc_cost = fmul consumed (price l)\<rparr>],
              price l))"

record marketImpact =
  mi_orderSize :: real
  mi_side :: string
  mi_totalCost :: real
  mi_averagePrice :: jsnum
  mi_finalPrice :: real
  mi_remainingSize :: real
  mi_filledSize :: real
  mi_levelsConsumed :: "consumedLevel list"
  mi_slippage :: jsnum
  mi_canFill :: bool

text \<open>\<open>xs[0]?.price\<close> read as a number: \<open>undefined\<close> is \<open>NaN\<close> in arithmetic.\<close>

definition bestPrice :: "PriceLevel list \<Rightarrow> jsnum" where
  "bestPrice xs = (case first xs of None \<Rightarrow> NaN | Some l \<Rightarrow> Num (price l))"

text \<open>\<open>getMarketImpact(orderSize, side)\<close>; \<open>None\<close> is the \<open>null\<close> it returns.\<close>

definition getMarketImpact :: "real \<Rightarrow> string \<Rightarrow> OrderBook \<Rightarrow> marketImpact option" where
  "getMarketImpact orderSize sd ob =
     (if orderSize \<le> 0 then None
      else
        let (remainingSize, totalCost, levelsConsumed, finalPrice) =
              (if sd = ''buy'' then consumeLoop (sortedAsks ob) (orderSize, 0, [], 0)
               else consumeLoop (sortedBids ob) (orderSize, 0, [], 0));
            averagePrice = js_div totalCost (fsub orderSize remainingSize);
            slippage =
              (if sd = ''buy''
               then js_times
                      (js_divide (js_minus averagePrice (bestPrice (getAsks (Some 1) ob)))
                         (bestPrice (getAsks (Some 1) ob)))
                      (Num 100)
               else js_times
                      (js_divide (js_minus (bestPrice (getBids (Some 1) ob)) averagePrice)
                         (bestPrice (getBids (Some 1) ob)))
                      (Num 100))
        in Some
             \<lparr>mi_orderSize = orderSize,
              mi_side = sd,
              mi_totalCost = totalCost,
              mi_averagePrice = averagePrice,
              mi_finalPrice = finalPrice,
              mi_remainingSize = remainingSize,
              mi_filledSize = fsub orderSize remainingSize,
              mi_levelsConsumed = levelsConsumed,
              mi_slippage = js_or_zero slippage,
              mi_canFill = (remainingSize = 0)\<rparr>)"

text \<open>
  The market-impact route of the server reads the side from the query string:
  \<open>req.query.side || 'buy'\<close>. \<open>None\<close> is a missing parameter.
\<close>

definition routeSide :: "string option \<Rightarrow> string" where
  "routeSide q = (case q of None \<Rightarrow> ''buy'' | Some s \<Rightarrow> if s = [] then ''buy'' else s)"

section \<open>Validators\<close>

text \<open>
  \<open>parseFloat\<close> belongs to the runtime, not to this program: every function that
  calls it takes it as the parameter \<open>pf\<close>, from a value to the number it parses to,
  \<open>None\<close> for \<open>NaN\<close>.
\<close>

type_synonym parser = "json \<Rightarrow> real option"

text \<open>\<open>x > 0\<close> and \<open>x >= 0\<close> on a parsed number: a comparison with \<open>NaN\<close> is false.\<close>

definition gt0 :: "real option \<Rightarrow> bool" where
  "gt0 x = (case x of None \<Rightarrow> False | Some r \<Rightarrow> 0 < r)"

definition ge0 :: "real option \<Rightarrow> bool" where
  "ge0 x = (case x of None \<Rightarrow> False | Some r \<Rightarrow> 0 \<le> r)"

definition isValidPriceLevel :: "parser \<Rightarrow> json \<Rightarrow> bool" where
  "isValidPriceLevel pf level \<longleftrightarrow>
     truthy level \<and>
     typeof_string (js_index level 0) \<and>
     typeof_string (js_index level 1) \<and>
     pf (js_index level 0) \<noteq> None \<and>
     pf (js_index level 1) \<noteq> None \<and>
     gt0 (pf (js_index level 0)) \<and>
     ge0 (pf (js_index level 1))"

text \<open>\<open>xs.every(f)\<close> on a value that \<open>Array.isArray\<close> has accepted.\<close>

fun every :: "(json \<Rightarrow> bool) \<Rightarrow> json \<Rightarrow> bool" where
  "every f (JArr xs) = list_all f xs"
| "every f v = False"

text \<open>
  A depth update of the venue, \<open>{e, s, U, u, b, a}\<close>, and a depth snapshot,
  \<open>{lastUpdateId, bids, asks}\<close>. The ids are integers; the other fields are any value.
\<close>

record depthUpdate =
  du_e :: json
  du_s :: json
  du_U :: int
  du_u :: int
  du_b :: json
  du_a :: json

record snapshotData =
  sn_lastUpdateId :: int
  sn_bids :: json
  sn_asks :: json

definition isValidDepthUpdate :: "parser \<Rightarrow> depthUpdate \<Rightarrow> bool" where
  "isValidDepthUpdate pf d \<longleftrightarrow>
     du_e d = JStr ''depthUpdate'' \<and>
     truthy (du_s d) \<and>
     du_u d \<noteq> 0 \<and>
     du_U d \<noteq> 0 \<and>
     isArray (du_b d) \<and>
     isArray (du_a d) \<and>
     every (isValidPriceLevel pf) (du_b d) \<and>
     every (isValidPriceLevel pf) (du_a d)"

definition isValidSnapshot :: "parser \<Rightarrow> snapshotData \<Rightarrow> bool" where
  "isValidSnapshot pf d \<longleftrightarrow>
     sn_lastUpdateId d \<noteq> 0 \<and>
     isArray (sn_bids d) \<and>
     isArray (sn_asks d) \<and>
     every (isValidPriceLevel pf) (sn_bids d) \<and>
     every (isValidPriceLevel pf) (sn_asks d)"

definition validateSequenceNumber :: "int \<Rightarrow> int \<Rightarrow> int \<Rightarrow> bool" where
  "validateSequenceNumber currentId newFirstId newLastId \<longleftrightarrow>
     newFirstId \<le> currentId + 1 \<and> currentId + 1 \<le> newLastId"

definition sanitizePriceLevel :: "parser \<Rightarrow> json \<Rightarrow> real option \<times> real option" where
  "sanitizePriceLevel pf level = (pf (js_index level 0), pf (js_index level 1))"

section \<open>OrderBookManager\<close>

text \<open>
  A subscriber is a WebSocket client: whether its \<open>readyState\<close> is \<open>OPEN\<close>, and whether
  \<open>send\<close> on it returns (rather than throws). What the manager has sent is kept in
  the trace \<open>sent\<close>.
\<close>

record subscriber =
  ws_id :: nat
  ws_open :: bool
  ws_send_ok :: bool

record broadcastMessage =
  bm_type :: string
  bm_symbol :: string
  bm_data :: snapshot
  bm_timestamp :: int

record OrderBookManager =
  orderbooks :: "string \<rightharpoonup> OrderBook"
  subscribers :: "subscriber list"
  sent :: "(nat \<times> broadcastMessage) list"

text \<open>What a call does: it returns a value, or an exception leaves it.\<close>

datatype outcome = Returned bool | Threw string

definition createOrderBook :: "int \<Rightarrow> string \<Rightarrow> OrderBookManager \<Rightarrow> OrderBook \<times> OrderBookManager" where
  "createOrderBook now name m =
     (let orderbook = new_OrderBook now name
      in (orderbook, m\<lparr>orderbooks := (orderbooks m)(name \<mapsto> orderbook)\<rparr>))"

definition getOrderBook :: "string \<Rightarrow> OrderBookManager \<Rightarrow> OrderBook option" where
  "getOrderBook name m = orderbooks m name"

definition removeSubscriber :: "subscriber \<Rightarrow> OrderBookManager \<Rightarrow> OrderBookManager" where
  "removeSubscriber ws m = m\<lparr>subscribers := removeAll ws (subscribers m)\<rparr>"

definition broadcastStep :: "broadcastMessage \<Rightarrow> OrderBookManager \<Rightarrow> subscriber \<Rightarrow> OrderBookManager" where
  "broadcastStep message m ws =
     (if ws_open ws then
        (if ws_send_ok ws then m\<lparr>sent := sent m @ [(ws_id ws, message)]\<rparr>
         else removeSubscriber ws m)
      else removeSubscriber ws m)"

definition broadcastUpdate :: "int \<Rightarrow> string \<Rightarrow> snapshot \<Rightarrow> OrderBookManager \<Rightarrow> OrderBookManager" where
  "broadcastUpdate now name snap m =
     foldl
       (broadcastStep
          \<lparr>bm_type = ''orderbook_update'', bm_symbol = name, bm_data = snap, bm_timestamp = now\<rparr>)
       m (subscribers m)"

text \<open>
  \<open>for (const level of v)\<close>: the elements of an array, the characters of a string;
  any other value of \<open>json\<close> is not iterable and the loop throws a \<open>TypeError\<close>.
\<close>

fun iterate :: "json \<Rightarrow> json list option" where
  "iterate (JArr xs) = Some xs"
| "iterate (JStr s) = Some (map (\<lambda>c. JStr [c]) s)"
| "iterate v = None"

text \<open>
  The body of the two loops that \<open>updateOrderBook\<close> and \<open>setSnapshot\<close> share. A level
  that passed \<open>isValidPriceLevel\<close> parses to two numbers; the last case is never taken.
\<close>

definition bidStep :: "parser \<Rightarrow> int \<Rightarrow> OrderBook \<Rightarrow> json \<Rightarrow> OrderBook" where
  "bidStep pf now ob level =
     (if isValidPriceLevel pf level then
        (case sanitizePriceLevel pf level of
           (Some p, Some q) \<Rightarrow> addBid now p q 1 ob
         | _ \<Rightarrow> ob)
      else ob)"

definition askStep :: "parser \<Rightarrow> int \<Rightarrow> OrderBook \<Rightarrow> json \<Rightarrow> OrderBook" where
  "askStep pf now ob level =
     (if isValidPriceLevel pf level then
        (case sanitizePriceLevel pf level of
           (Some p, Some q) \<Rightarrow> addAsk now p q 1 ob
         | _ \<Rightarrow> ob)
      else ob)"

definition storeBook :: "string \<Rightarrow> OrderBook \<Rightarrow> OrderBookManager \<Rightarrow> OrderBookManager" where
  "storeBook name ob m = m\<lparr>orderbooks := (orderbooks m)(name \<mapsto> ob)\<rparr>"

text \<open>
  \<open>updateOrderBook\<close> after its sequence check: the two loops, the last update id, the
  broadcast. The book is an object that the manager's map refers to, so every change to
  it is stored under its symbol.
\<close>

definition applyDepth ::
  "parser \<Rightarrow> int \<Rightarrow> string \<Rightarrow> depthUpdate \<Rightarrow> OrderBook \<Rightarrow> OrderBookManager \<Rightarrow> outcome \<times> OrderBookManager"
where
  "applyDepth pf now name d ob m =
     (case iterate (du_b d) of
        None \<Rightarrow> (Threw ''TypeError'', storeBook name ob m)
      | Some bs \<Rightarrow>
          (let ob1 = foldl (bidStep pf now) ob bs
           in case iterate (du_a d) of
                None \<Rightarrow> (Threw ''TypeError'', storeBook name ob1 m)
              | Some as \<Rightarrow>
                  (let ob2 = foldl (askStep pf now) ob1 as;
                       ob3 = updateLastUpdateId now (du_u d) ob2;
                       m1 = storeBook name ob3 m
                   in (Returned True, broadcastUpdate now name (getSnapshot None ob3) m1))))"

definition updateOrderBook ::
  "parser \<Rightarrow> int \<Rightarrow> string \<Rightarrow> depthUpdate \<Rightarrow> OrderBookManager \<Rightarrow> outcome \<times> OrderBookManager"
where
  "updateOrderBook pf now name d m =
     (let (orderbook, m0) =
            (case getOrderBook name m of
               None \<Rightarrow> createOrderBook now name m
             | Some ob \<Rightarrow> (ob, m))
      in if lastUpdateId orderbook = 0
         then applyDepth pf now name d (updateLastUpdateId now (du_u d) orderbook) m0
         else if 1000 < du_U d - lastUpdateId orderbook
         then applyDepth pf now name d (updateLastUpdateId now (du_u d) orderbook) m0
         else if \<not> validateSequenceNumber (lastUpdateId orderbook) (du_U d) (du_u d)
         then (Returned False, m0)
         else applyDepth pf now name d orderbook m0)"

definition setSnapshot ::
  "parser \<Rightarrow> int \<Rightarrow> string \<Rightarrow> snapshotData \<Rightarrow> OrderBookManager \<Rightarrow> outcome \<times> OrderBookManager"
where
  "setSnapshot pf now name d m =
     (if \<not> isValidSnapshot pf d then (Returned False, m)
      else
        let (orderbook, m0) =
              (case getOrderBook name m of
                 None \<Rightarrow> createOrderBook now name m
               | Some ob \<Rightarrow> (ob, m));
            ob0 = clear now orderbook
        in case iterate (sn_bids d) of
             None \<Rightarrow> (Threw ''TypeError'', storeBook name ob0 m0)
           | Some bs \<Rightarrow>
               (let ob1 = foldl (bidStep pf now) ob0 bs
                in case iterate (sn_asks d) of
                     None \<Rightarrow> (Threw ''TypeError'', storeBook name ob1 m0)
                   | Some as \<Rightarrow>
                       (let ob2 = foldl (askStep pf now) ob1 as;
                            ob3 = updateLastUpdateId now (sn_lastUpdateId d) ob2
                        in (Returned True, storeBook name ob3 m0))))"


section \<open>Reachable books\<close>

text \<open>
  The methods of \<open>OrderBook\<close> that change it. Every book of the program is a fresh book
  after a finite sequence of them, each at its own reading of the clock.
\<close>

datatype book_op =
    AddBid real real int
  | AddAsk real real int
  | UpdateBid real real int
  | UpdateAsk real real int
  | UpdateLastUpdateId int
  | Clear

fun apply_op :: "OrderBook \<Rightarrow> int \<times> book_op \<Rightarrow> OrderBook" where
  "apply_op ob (now, AddBid p q c) = addBid now p q c ob"
| "apply_op ob (now, AddAsk p q c) = addAsk now p q c ob"
| "apply_op ob (now, UpdateBid p q c) = updateBid now p q c ob"
| "apply_op ob (now, UpdateAsk p q c) = updateAsk now p q c ob"
| "apply_op ob (now, UpdateLastUpdateId i) = updateLastUpdateId now i ob"
| "apply_op ob (now, Clear) = clear now ob"

definition run_ops :: "(int \<times> book_op) list \<Rightarrow> OrderBook \<Rightarrow> OrderBook" where
  "run_ops ops ob = foldl apply_op ob ops"

text \<open>
  The invariant of a side: one entry for a key, the level of a key has that price, and
  its quantity is positive.
\<close>

definition wf_side :: "side \<Rightarrow> bool" where
  "wf_side sd \<longleftrightarrow>
     distinct (map fst sd) \<and> list_all (\<lambda>(k, l). price l = k \<and> 0 < quantity l) sd"

definition wf_book :: "OrderBook \<Rightarrow> bool" where
  "wf_book ob \<longleftrightarrow> wf_side (bids ob) \<and> wf_side (asks ob)"



fun is_add :: "book_op \<Rightarrow> bool" where
  "is_add (AddBid p q c) = True"
| "is_add (AddAsk p q c) = True"
| "is_add x = False"

text \<open>The quantity of the most recent \<open>addBid\<close> (\<open>addAsk\<close>) at a price, if there is one.\<close>

fun bidQtyAt :: "real \<Rightarrow> book_op \<Rightarrow> real option" where
  "bidQtyAt p (AddBid p' q c) = (if p' = p then Some q else None)"
| "bidQtyAt p x = None"

fun askQtyAt :: "real \<Rightarrow> book_op \<Rightarrow> real option" where
  "askQtyAt p (AddAsk p' q c) = (if p' = p then Some q else None)"
| "askQtyAt p x = None"

fun lastBidQty :: "real \<Rightarrow> (int \<times> book_op) list \<Rightarrow> real option" where
  "lastBidQty p [] = None"
| "lastBidQty p (x # xs) =
     (case lastBidQty p xs of Some q \<Rightarrow> Some q | None \<Rightarrow> bidQtyAt p (snd x))"

fun lastAskQty :: "real \<Rightarrow> (int \<times> book_op) list \<Rightarrow> real option" where
  "lastAskQty p [] = None"
| "lastAskQty p (x # xs) =
     (case lastAskQty p xs of Some q \<Rightarrow> Some q | None \<Rightarrow> askQtyAt p (snd x))"

section \<open>The analytics as the specification words them\<close>

text \<open>
  The levels of a side that a target price selects, in the order of the walk: bids from
  the highest price down, asks from the lowest price up.
\<close>

definition bidsAtOrAbove :: "real \<Rightarrow> OrderBook \<Rightarrow> PriceLevel list" where
  "bidsAtOrAbove t ob = filter (\<lambda>l. t \<le> price l) (sortedBids ob)"

definition asksAtOrBelow :: "real \<Rightarrow> OrderBook \<Rightarrow> PriceLevel list" where
  "asksAtOrBelow t ob = filter (\<lambda>l. price l \<le> t) (sortedAsks ob)"

text \<open>
  A sum in double arithmetic, taken from 0 in the order of the list, as a running total
  of the code is.
\<close>

definition runningSum :: "('a \<Rightarrow> real) \<Rightarrow> 'a list \<Rightarrow> real" where
  "runningSum f xs = foldl (\<lambda>acc x. fadd acc (f x)) 0 xs"

text \<open>What is left of a size after the quantities of a list are subtracted one by one.\<close>

definition leftAfter :: "real \<Rightarrow> consumedLevel list \<Rightarrow> real" where
  "leftAfter n cs = foldl (\<lambda>r c. fsub r (lc_quantity c)) n cs"

text \<open>
  The walk of a taker as the specification words it: at each level of the side, in order,
  consume \<open>min(remaining, level.quantity)\<close>, until \<open>remaining\<close> reaches 0 or the side
  is exhausted.
\<close>

fun walkLevels :: "real \<Rightarrow> PriceLevel list \<Rightarrow> consumedLevel list" where
  "walkLevels remaining [] = []"
| "walkLevels remaining (l # ls) =
     (if remaining = 0 then []
      else \<lparr>lc_price = price l,
             lc_quantity = min remaining (quantity l),
             lc_cost = fmul (min remaining (quantity l)) (price l)\<rparr>
           # walkLevels (fsub remaining (min remaining (quantity l))) ls)"

text \<open>The price of the last level touched, or the default when none was.\<close>

definition lastPrice :: "real \<Rightarrow> consumedLevel list \<Rightarrow> real" where
  "lastPrice d cs = (if cs = [] then d else lc_price (last cs))"

section \<open>The effect of a list of changes\<close>

text \<open>
  What a level of the wire says: the number its first entry parses to is the price, the
  number its second entry parses to is the quantity.
\<close>

definition wireChange :: "parser \<Rightarrow> json \<Rightarrow> (real \<times> real) option" where
  "wireChange pf l =
     (case pf (js_index l 0) of
        None \<Rightarrow> None
      | Some p \<Rightarrow> (case pf (js_index l 1) of None \<Rightarrow> None | Some q \<Rightarrow> Some (p, q)))"

text \<open>
  The changes of a list of levels: the \<open>(price, quantity)\<close> of every level that passes
  \<open>isValidPriceLevel\<close>, in the order of the list.
\<close>

fun levelChanges :: "parser \<Rightarrow> json list \<Rightarrow> (real \<times> real) list" where
  "levelChanges pf [] = []"
| "levelChanges pf (l # ls) =
     (if isValidPriceLevel pf l then
        (case wireChange pf l of
           Some c \<Rightarrow> c # levelChanges pf ls
         | None \<Rightarrow> levelChanges pf ls)
      else levelChanges pf ls)"

text \<open>
  A side after a list of changes, read at one price: the last change at that price
  decides, and a positive quantity leaves a level of that price and quantity, of count 1,
  touched now; a price without a change keeps its level.
\<close>

definition sideAfter :: "int \<Rightarrow> (real \<times> real) list \<Rightarrow> side \<Rightarrow> real \<Rightarrow> PriceLevel option" where
  "sideAfter now cs sd p =
     (case map_of (rev cs) p of
        None \<Rightarrow> map_of sd p
      | Some q \<Rightarrow>
          if 0 < q then Some \<lparr>price = p, quantity = q, count = 1, timestamp = now\<rparr>
          else None)"

text \<open>What an accepted update leaves in the book of its symbol.\<close>

definition applied ::
  "parser \<Rightarrow> int \<Rightarrow> depthUpdate \<Rightarrow> OrderBook \<Rightarrow> OrderBook \<Rightarrow> bool" where
  "applied pf now d ob ob' \<longleftrightarrow>
     (\<exists>bs as.
        du_b d = JArr bs \<and> du_a d = JArr as \<and>
        bids ob' = bids (foldl (bidStep pf now) ob bs) \<and>
        asks ob' = asks (foldl (askStep pf now) ob as) \<and>
        (\<forall>p. map_of (bids ob') p = sideAfter now (levelChanges pf bs) (bids ob) p) \<and>
        (\<forall>p. map_of (asks ob') p = sideAfter now (levelChanges pf as) (asks ob) p) \<and>
        lastUpdateId ob' = du_u d \<and>
        lastUpdateTime ob' = now \<and>
        symbol ob' = symbol ob)"

definition levelPairs :: "PriceLevel list \<Rightarrow> (real \<times> real) set" where
  "levelPairs ls = (\<lambda>l. (price l, quantity l)) ` set ls"

text \<open>The pairs that a list of changes leaves on an empty side.\<close>

definition lastPositive :: "(real \<times> real) list \<Rightarrow> (real \<times> real) set" where
  "lastPositive cs = {(p, q). map_of (rev cs) p = Some q \<and> 0 < q}"

section \<open>Example inputs\<close>


definition sampleOps :: "(int \<times> book_op) list" where
  "sampleOps =
     [(1, AddBid 50000 (3/2) 1), (2, AddBid 50001 2 1), (3, AddBid 49999 1 1),
      (4, AddAsk 50003 2 1), (5, AddAsk 50002 (3/2) 1), (6, AddAsk 50004 1 1)]"

definition addOps :: "(int \<times> book_op) list" where
  "addOps =
     [(1, AddBid 50000 (3/2) 1), (2, AddBid 50001 2 1), (3, AddBid 50000 0 1),
      (4, AddAsk 50002 1 1)]"

definition ladderBook :: OrderBook where
  "ladderBook =
     addAsk 6 102 10 1 (addAsk 5 100 2 1 (addAsk 4 101 3 1
       (addBid 3 99 1 1 (addBid 2 97 5 1 (addBid 1 98 2 1 (new_OrderBook 0 ''btcusdt''))))))"

text \<open>
  The parser of the examples: what \<open>parseFloat\<close> returns on the strings they use.
  The examples apply it to no other value.
\<close>

definition exampleParseFloat :: parser where
  "exampleParseFloat v =
     (case v of
        JStr s \<Rightarrow>
          map_of
            [(''0'', 0), (''1'', 1), (''2'', 2), (''1.5'', 3 / 2), (''97'', 97), (''98'', 98),
             (''99'', 99), (''100'', 100), (''101'', 101), (''102'', 102)] s
      | _ \<Rightarrow> None)"

definition book100 :: OrderBook where
  "book100 = updateLastUpdateId 0 100 ladderBook"

definition manager100 :: OrderBookManager where
  "manager100 =
     \<lparr>orderbooks = [''btcusdt'' \<mapsto> book100],
      subscribers = [\<lparr>ws_id = 7, ws_open = True, ws_send_ok = True\<rparr>],
      sent = []\<rparr>"

definition emptyManager :: OrderBookManager where
  "emptyManager = \<lparr>orderbooks = Map.empty, subscribers = [], sent = []\<rparr>"

definition diff101_105 :: depthUpdate where
  "diff101_105 =
     \<lparr>du_e = JStr ''depthUpdate'', du_s = JStr ''BTCUSDT'', du_U = 101, du_u = 105,
      du_b = JArr [JArr [JStr ''99'', JStr ''0'']],
      du_a = JArr [JArr [JStr ''100'', JStr ''1.5'']]\<rparr>"

definition diff103_104 :: depthUpdate where
  "diff103_104 =
     \<lparr>du_e = JStr ''depthUpdate'', du_s = JStr ''BTCUSDT'', du_U = 103, du_u = 104,
      du_b = JArr [JArr [JStr ''98'', JStr ''0'']],
      du_a = JArr []\<rparr>"

definition diff5000_5010 :: depthUpdate where
  "diff5000_5010 =
     \<lparr>du_e = JStr ''depthUpdate'', du_s = JStr ''BTCUSDT'', du_U = 5000, du_u = 5010,
      du_b = JArr [JArr [JStr ''99'', JStr ''2'']],
      du_a = JArr []\<rparr>"

definition snapshotNegativeId :: snapshotData where
  "snapshotNegativeId =
     \<lparr>sn_lastUpdateId = - 1,
      sn_bids = JArr [JArr [JStr ''100'', JStr ''1'']],
      sn_asks = JArr [JArr [JStr ''101'', JStr ''1'']]\<rparr>"

definition snapshotZeroQty :: snapshotData where
  "snapshotZeroQty =
     \<lparr>sn_lastUpdateId = 10,
      sn_bids = JArr [JArr [JStr ''100'', JStr ''0'']],
      sn_asks = JArr [JArr [JStr ''101'', JStr ''1'']]\<rparr>"

definition snapshotPlain :: snapshotData where
  "snapshotPlain =
     \<lparr>sn_lastUpdateId = 10,
      sn_bids = JArr [JArr [JStr ''99'', JStr ''2''], JArr [JStr ''100'', JStr ''1'']],
      sn_asks = JArr [JArr [JStr ''101'', JStr ''1'']]\<rparr>"

text \<open>
  Books with decimal quantities. The quantities are the doubles that the decimal
  literals denote.
\<close>

definition decimalBook :: OrderBook where
  "decimalBook =
     addBid 3 98 (rnd (2 / 10)) 1 (addBid 2 97 (rnd (1 / 10)) 1
       (addBid 1 99 (rnd (3 / 10)) 1 (new_OrderBook 0 ''btcusdt'')))"

definition roundingBook :: OrderBook where
  "roundingBook =
     addAsk 2 101 (rnd (1965 / 1000)) 1
       (addAsk 1 100 (rnd (734 / 1000)) 1 (new_OrderBook 0 ''btcusdt''))"

definition residueBook :: OrderBook where
  "residueBook =
     addAsk 3 102 (rnd (2 / 10)) 1 (addAsk 2 101 (rnd (1 / 10)) 1
       (addAsk 1 100 (rnd (1 / 10)) 1 (new_OrderBook 0 ''btcusdt'')))"

section \<open>The invariant of the sides\<close>

lemma wf_side_Nil: "wf_side []"
  by (simp add: wf_side_def)

lemma list_all_update:
  "list_all P sd \<Longrightarrow> P (k, v) \<Longrightarrow> list_all P (AList.update k v sd)"
  by (induction sd) auto

lemma list_all_delete: "list_all P sd \<Longrightarrow> list_all P (AList.delete k sd)"
  by (induction sd) auto

lemma wf_side_set:
  "wf_side sd \<Longrightarrow> 0 < q \<Longrightarrow> wf_side (AList.update p (new_PriceLevel now p q c) sd)"
  unfolding wf_side_def
  by (simp add: distinct_update list_all_update new_PriceLevel_def)

lemma wf_side_delete: "wf_side sd \<Longrightarrow> wf_side (AList.delete p sd)"
  unfolding wf_side_def
  by (simp add: distinct_delete list_all_delete)

lemma wf_side_lookup: "wf_side sd \<Longrightarrow> map_of sd p = Some l \<Longrightarrow> price l = p"
  unfolding wf_side_def
  by (auto dest!: map_of_SomeD simp: list_all_iff)

lemma wf_side_level_update:
  "wf_side sd \<Longrightarrow> map_of sd p = Some l \<Longrightarrow> 0 < q \<Longrightarrow>
   wf_side (AList.update p (level_update now q c l) sd)"
  using wf_side_lookup[of sd p l]
  unfolding wf_side_def
  by (simp add: distinct_update list_all_update level_update_def)

lemma wf_side_prices: "wf_side sd \<Longrightarrow> map price (map snd sd) = map fst sd"
  unfolding wf_side_def by (induction sd) auto

lemma wf_side_distinct_prices: "wf_side sd \<Longrightarrow> distinct (map price (map snd sd))"
proof -
  assume wf: "wf_side sd"
  then have "distinct (map fst sd)" by (simp add: wf_side_def)
  with wf_side_prices[OF wf] show ?thesis by metis
qed

lemma wf_book_new: "wf_book (new_OrderBook now name)"
  by (simp add: wf_book_def new_OrderBook_def wf_side_Nil)

lemma wf_book_apply_op: "wf_book ob \<Longrightarrow> wf_book (apply_op ob x)"
proof (cases x)
  case (Pair now op)
  assume wf: "wf_book ob"
  show ?thesis
  proof (cases op)
    case (AddBid p q c)
    with Pair wf show ?thesis
      by (simp add: wf_book_def addBid_def wf_side_set wf_side_delete)
  next
    case (AddAsk p q c)
    with Pair wf show ?thesis
      by (simp add: wf_book_def addAsk_def wf_side_set wf_side_delete)
  next
    case (UpdateBid p q c)
    with Pair wf show ?thesis
      by (simp add: wf_book_def updateBid_def wf_side_level_update wf_side_delete
          split: option.splits)
  next
    case (UpdateAsk p q c)
    with Pair wf show ?thesis
      by (simp add: wf_book_def updateAsk_def wf_side_level_update wf_side_delete
          split: option.splits)
  next
    case (UpdateLastUpdateId i)
    with Pair wf show ?thesis
      by (simp add: wf_book_def updateLastUpdateId_def)
  next
    case Clear
    with Pair wf show ?thesis
      by (simp add: wf_book_def clear_def wf_side_Nil)
  qed
qed

lemma wf_book_foldl: "wf_book ob \<Longrightarrow> wf_book (foldl apply_op ob ops)"
  by (induction ops arbitrary: ob) (simp_all add: wf_book_apply_op)

lemma wf_book_run: "wf_book (run_ops ops (new_OrderBook now name))"
  unfolding run_ops_def by (rule wf_book_foldl[OF wf_book_new])

lemma strict_desc_sort:
  assumes "distinct (map price xs)"
  shows "sorted_wrt (\<lambda>x y. price y < price x) (sort_key (\<lambda>l. - price l) xs)"
proof -
  let ?k = "\<lambda>l. - price l"
  have "distinct (map ?k xs)"
    using assms by (simp add: distinct_map inj_on_def)
  then have "distinct (map ?k (sort_key ?k xs))"
    by (simp add: distinct_map)
  moreover have "sorted (map ?k (sort_key ?k xs))"
    by (rule sorted_sort_key)
  ultimately have "sorted_wrt (<) (map ?k (sort_key ?k xs))"
    by (simp add: strict_sorted_iff)
  then show ?thesis
    by (simp add: sorted_wrt_map)
qed

lemma strict_asc_sort:
  assumes "distinct (map price xs)"
  shows "sorted_wrt (\<lambda>x y. price x < price y) (sort_key price xs)"
proof -
  have "distinct (map price (sort_key price xs))"
    using assms by (simp add: distinct_map)
  moreover have "sorted (map price (sort_key price xs))"
    by (rule sorted_sort_key)
  ultimately have "sorted_wrt (<) (map price (sort_key price xs))"
    by (simp add: strict_sorted_iff)
  then show ?thesis
    by (simp add: sorted_wrt_map)
qed

section \<open>Queries on the book\<close>












lemma sortedBids_strict: "wf_book ob \<Longrightarrow> sorted_wrt (\<lambda>x y. price y < price x) (sortedBids ob)"
  unfolding sortedBids_def wf_book_def
  by (intro strict_desc_sort wf_side_distinct_prices) simp

lemma sortedAsks_strict: "wf_book ob \<Longrightarrow> sorted_wrt (\<lambda>x y. price x < price y) (sortedAsks ob)"
  unfolding sortedAsks_def wf_book_def
  by (intro strict_asc_sort wf_side_distinct_prices) simp

lemma slice0_pos: "1 \<le> n \<Longrightarrow> slice0 n xs = take (nat n) xs"
  by (simp add: slice0_def)

text \<open>
  Claim C6. In every book reached from a fresh one, \<open>getBids()\<close> lists the whole bid
  side in strictly decreasing price and \<open>getAsks()\<close> the whole ask side in strictly
  increasing price; with a limit \<open>N \<ge> 1\<close> each returns the first \<open>min N size\<close> levels
  of that list.
\<close>

theorem bids_asks_order:
  assumes "ob = run_ops ops (new_OrderBook now name)"
  shows
  "sorted_wrt (\<lambda>x y. price y < price x) (getBids None ob) \<and>
   sorted_wrt (\<lambda>x y. price x < price y) (getAsks None ob) \<and>
   set (getBids None ob) = snd ` set (bids ob) \<and>
   length (getBids None ob) = length (bids ob) \<and>
   set (getAsks None ob) = snd ` set (asks ob) \<and>
   length (getAsks None ob) = length (asks ob) \<and>
   (1 \<le> N \<longrightarrow>
      getBids (Some N) ob = take (nat N) (getBids None ob) \<and>
      length (getBids (Some N) ob) = min (nat N) (length (bids ob)) \<and>
      getAsks (Some N) ob = take (nat N) (getAsks None ob) \<and>
      length (getAsks (Some N) ob) = min (nat N) (length (asks ob)))"
proof -
  have wf: "wf_book ob"
    unfolding assms by (rule wf_book_run)
  have 1: "sorted_wrt (\<lambda>x y. price y < price x) (getBids None ob)"
    using sortedBids_strict[OF wf] by (simp add: getBids_def)
  have 2: "sorted_wrt (\<lambda>x y. price x < price y) (getAsks None ob)"
    using sortedAsks_strict[OF wf] by (simp add: getAsks_def)
  have 3: "set (getBids None ob) = snd ` set (bids ob) \<and> length (getBids None ob) = length (bids ob)"
    by (simp add: getBids_def sortedBids_def)
  have 4: "set (getAsks None ob) = snd ` set (asks ob) \<and> length (getAsks None ob) = length (asks ob)"
    by (simp add: getAsks_def sortedAsks_def)
  have 5: "getBids (Some N) ob = take (nat N) (getBids None ob) \<and>
      length (getBids (Some N) ob) = min (nat N) (length (bids ob))" if "1 \<le> N"
    using that by (simp add: getBids_def sortedBids_def slice0_pos)
  have 6: "getAsks (Some N) ob = take (nat N) (getAsks None ob) \<and>
      length (getAsks (Some N) ob) = min (nat N) (length (asks ob))" if "1 \<le> N"
    using that by (simp add: getAsks_def sortedAsks_def slice0_pos)
  from 1 2 3 4 5 6 show ?thesis by blast
qed

lemma sampleOps_bids:
  "map price (sortedBids (run_ops sampleOps (new_OrderBook 0 ''btcusdt''))) = [50001, 50000, 49999]"
  by (simp add: sampleOps_def run_ops_def new_OrderBook_def addBid_def addAsk_def
      new_PriceLevel_def sortedBids_def)

lemma sampleOps_asks:
  "map price (sortedAsks (run_ops sampleOps (new_OrderBook 0 ''btcusdt''))) = [50002, 50003, 50004]"
  by (simp add: sampleOps_def run_ops_def new_OrderBook_def addBid_def addAsk_def
      new_PriceLevel_def sortedAsks_def)

theorem bids_asks_order_witness:
  "(1::int) \<le> 2 \<and>
   map price (getBids None (run_ops sampleOps (new_OrderBook 0 ''btcusdt''))) = [50001, 50000, 49999] \<and>
   map price (getAsks None (run_ops sampleOps (new_OrderBook 0 ''btcusdt''))) = [50002, 50003, 50004] \<and>
   sorted_wrt (\<lambda>x y. price y < price x) (getBids None (run_ops sampleOps (new_OrderBook 0 ''btcusdt''))) \<and>
   sorted_wrt (\<lambda>x y. price x < price y) (getAsks None (run_ops sampleOps (new_OrderBook 0 ''btcusdt''))) \<and>
   map price (getBids (Some 2) (run_ops sampleOps (new_OrderBook 0 ''btcusdt''))) = [50001, 50000] \<and>
   length (getAsks (Some 2) (run_ops sampleOps (new_OrderBook 0 ''btcusdt''))) = 2"
proof -
  let ?ob = "run_ops sampleOps (new_OrderBook 0 ''btcusdt'')"
  have n: "(1::int) \<le> 2" by simp
  have b: "map price (getBids None ?ob) = [50001, 50000, 49999]"
    using sampleOps_bids by (simp add: getBids_def)
  have a: "map price (getAsks None ?ob) = [50002, 50003, 50004]"
    using sampleOps_asks by (simp add: getAsks_def)
  have la: "length (asks ?ob) = 3"
    using arg_cong[OF sampleOps_asks, of length] by (simp add: sortedAsks_def)
  from bids_asks_order[OF refl, of sampleOps 0 "''btcusdt''" 2] n
  have t: "sorted_wrt (\<lambda>x y. price y < price x) (getBids None ?ob)"
    "sorted_wrt (\<lambda>x y. price x < price y) (getAsks None ?ob)"
    "getBids (Some 2) ?ob = take 2 (getBids None ?ob)"
    "length (getAsks (Some 2) ?ob) = min 2 (length (asks ?ob))"
    by simp_all
  have "map price (getBids (Some 2) ?ob) = take 2 (map price (getBids None ?ob))"
    using t(3) by (simp add: take_map)
  with b have "map price (getBids (Some 2) ?ob) = [50001, 50000]"
    by simp
  with n b a t la show ?thesis by simp
qed

lemma lastBidQty_snoc:
  "lastBidQty p (xs @ [x]) =
     (case bidQtyAt p (snd x) of Some q \<Rightarrow> Some q | None \<Rightarrow> lastBidQty p xs)"
  by (induction xs) (auto split: option.splits)

lemma lastAskQty_snoc:
  "lastAskQty p (xs @ [x]) =
     (case askQtyAt p (snd x) of Some q \<Rightarrow> Some q | None \<Rightarrow> lastAskQty p xs)"
  by (induction xs) (auto split: option.splits)

lemma key_in_side: "p \<in> fst ` set sd \<longleftrightarrow> map_of sd p \<noteq> None"
  by (metis dom_map_of_conv_image_fst domIff)

lemma bids_keys_addBid:
  "p \<in> fst ` set (bids (addBid now p' q c ob)) \<longleftrightarrow>
     (if p = p' then 0 < q else p \<in> fst ` set (bids ob))"
  by (simp add: addBid_def key_in_side update_conv' delete_conv')

lemma asks_keys_addAsk:
  "p \<in> fst ` set (asks (addAsk now p' q c ob)) \<longleftrightarrow>
     (if p = p' then 0 < q else p \<in> fst ` set (asks ob))"
  by (simp add: addAsk_def key_in_side update_conv' delete_conv')

lemma bids_addAsk: "bids (addAsk now p q c ob) = bids ob"
  by (simp add: addAsk_def)

lemma asks_addBid: "asks (addBid now p q c ob) = asks ob"
  by (simp add: addBid_def)

lemma adds_presence:
  "list_all (\<lambda>x. is_add (snd x)) ops \<Longrightarrow>
   (p \<in> fst ` set (bids (foldl apply_op (new_OrderBook now name) ops)) \<longleftrightarrow>
      (\<exists>q. lastBidQty p ops = Some q \<and> 0 < q)) \<and>
   (p \<in> fst ` set (asks (foldl apply_op (new_OrderBook now name) ops)) \<longleftrightarrow>
      (\<exists>q. lastAskQty p ops = Some q \<and> 0 < q))"
proof (induction ops rule: rev_induct)
  case Nil
  show ?case by (simp add: new_OrderBook_def)
next
  case (snoc x xs)
  then have ih:
    "p \<in> fst ` set (bids (foldl apply_op (new_OrderBook now name) xs)) \<longleftrightarrow>
      (\<exists>q. lastBidQty p xs = Some q \<and> 0 < q)"
    "p \<in> fst ` set (asks (foldl apply_op (new_OrderBook now name) xs)) \<longleftrightarrow>
      (\<exists>q. lastAskQty p xs = Some q \<and> 0 < q)"
    and ad: "is_add (snd x)"
    by simp_all
  obtain t op where x: "x = (t, op)" by (cases x)
  from ad x show ?case
  proof (cases op)
    case (AddBid p' q c)
    with x ih show ?thesis
      by (simp add: lastBidQty_snoc lastAskQty_snoc bids_keys_addBid asks_addBid)
  next
    case (AddAsk p' q c)
    with x ih show ?thesis
      by (simp add: lastBidQty_snoc lastAskQty_snoc asks_keys_addAsk bids_addAsk)
  qed simp_all
qed

text \<open>
  Claim C5. After any sequence of \<open>addBid\<close> and \<open>addAsk\<close> on a fresh book, a side has a
  level at a price exactly when the most recent operation of that side at that price had
  a positive quantity. An operation with quantity 0 leaves no level at its price, and
  leaves the book as it is when there was none.
\<close>

theorem level_present_iff_last_add_positive:
  assumes "list_all (\<lambda>x. is_add (snd x)) ops"
    and "ob = run_ops ops (new_OrderBook now name)"
  shows "(p \<in> fst ` set (bids ob) \<longleftrightarrow> (\<exists>q. lastBidQty p ops = Some q \<and> 0 < q)) \<and>
         (p \<in> fst ` set (asks ob) \<longleftrightarrow> (\<exists>q. lastAskQty p ops = Some q \<and> 0 < q)) \<and>
         p \<notin> fst ` set (bids (addBid t p 0 c b)) \<and>
         p \<notin> fst ` set (asks (addAsk t p 0 c b)) \<and>
         (p \<notin> fst ` set (bids b) \<longrightarrow> addBid t p 0 c b = b) \<and>
         (p \<notin> fst ` set (asks b) \<longrightarrow> addAsk t p 0 c b = b)"
proof -
  have 1: "(p \<in> fst ` set (bids ob) \<longleftrightarrow> (\<exists>q. lastBidQty p ops = Some q \<and> 0 < q)) \<and>
         (p \<in> fst ` set (asks ob) \<longleftrightarrow> (\<exists>q. lastAskQty p ops = Some q \<and> 0 < q))"
    using adds_presence[OF assms(1), of p now name] assms(2) by (simp add: run_ops_def)
  have 2: "p \<notin> fst ` set (bids (addBid t p 0 c b))" "p \<notin> fst ` set (asks (addAsk t p 0 c b))"
    by (simp_all add: bids_keys_addBid asks_keys_addAsk)
  have 3: "addBid t p 0 c b = b" if "p \<notin> fst ` set (bids b)"
    using that by (simp add: addBid_def)
  have 4: "addAsk t p 0 c b = b" if "p \<notin> fst ` set (asks b)"
    using that by (simp add: addAsk_def)
  from 1 2 3 4 show ?thesis by blast
qed

theorem level_present_iff_last_add_positive_witness:
  "list_all (\<lambda>x. is_add (snd x)) addOps \<and>
   lastBidQty 50000 addOps = Some 0 \<and>
   50000 \<notin> fst ` set (bids (run_ops addOps (new_OrderBook 0 ''btcusdt''))) \<and>
   lastBidQty 50001 addOps = Some 2 \<and>
   50001 \<in> fst ` set (bids (run_ops addOps (new_OrderBook 0 ''btcusdt''))) \<and>
   50000 \<notin> fst ` set (bids (new_OrderBook 0 ''btcusdt'')) \<and>
   addBid 7 50000 0 1 (new_OrderBook 0 ''btcusdt'') = new_OrderBook 0 ''btcusdt''"
proof -
  have a: "list_all (\<lambda>x. is_add (snd x)) addOps"
    by (simp add: addOps_def)
  have l: "lastBidQty 50000 addOps = Some 0" "lastBidQty 50001 addOps = Some 2"
    by (simp_all add: addOps_def)
  have e: "50000 \<notin> fst ` set (bids (new_OrderBook 0 ''btcusdt''))"
    by (simp add: new_OrderBook_def)
  from level_present_iff_last_add_positive[OF a refl, of 50000 0 "''btcusdt''" 7 1 "new_OrderBook 0 ''btcusdt''"]
    level_present_iff_last_add_positive[OF a refl, of 50001 0 "''btcusdt''" 7 1 "new_OrderBook 0 ''btcusdt''"]
    a l e
  show ?thesis by simp
qed

section \<open>Accumulated quantity and market impact\<close>

lemma ulpUp_pos: "0 < u \<Longrightarrow> 0 < ulpUp fuel u x"
proof (induction fuel u x rule: ulpUp.induct)
  case (1 fuel u x)
  show ?case
  proof (cases "fuel = 0 \<or> x < 2")
    case True
    with "1.prems" show ?thesis by (simp add: ulpUp.simps)
  next
    case False
    with "1.prems" have "0 < ulpUp (fuel - 1) (2 * u) (x / 2)"
      by (intro "1.IH") simp_all
    with False show ?thesis by (simp add: ulpUp.simps[of fuel u x])
  qed
qed

lemma ulpDown_pos: "0 < u \<Longrightarrow> 0 < ulpDown fuel u x"
proof (induction fuel u x rule: ulpDown.induct)
  case (1 fuel u x)
  show ?case
  proof (cases "fuel = 0 \<or> 1 \<le> x")
    case True
    with "1.prems" show ?thesis by (simp add: ulpDown.simps)
  next
    case False
    with "1.prems" have "0 < ulpDown (fuel - 1) (u / 2) (2 * x)"
      by (intro "1.IH") simp_all
    with False show ?thesis by (simp add: ulpDown.simps[of fuel u x])
  qed
qed

lemma ulp_pos: "0 < ulp x"
  by (simp add: ulp_def ulpUp_pos ulpDown_pos)

lemma roundEven_nonneg: "0 \<le> y \<Longrightarrow> 0 \<le> roundEven y"
  by (simp add: roundEven_def)

lemma rnd_nonneg: "0 \<le> x \<Longrightarrow> 0 \<le> rnd x"
proof -
  assume x: "0 \<le> x"
  have "0 \<le> x / ulp x"
    using x ulp_pos[of x] by simp
  then have "0 \<le> roundEven (x / ulp x)"
    by (rule roundEven_nonneg)
  then have "0 \<le> of_int (roundEven (x / ulp x)) * ulp x"
    using ulp_pos[of x] by simp
  then show ?thesis
    by (simp add: rnd_def)
qed

lemma fsub_min_nonneg: "0 \<le> fsub r (min r q)"
  unfolding fsub_def by (rule rnd_nonneg) simp

lemma fmul_commute: "fmul a b = fmul b a"
  by (simp add: fmul_def mult.commute)

lemma accBidLoop_takeWhile:
  "accBidLoop t xs (q, c) =
     (foldl (\<lambda>acc l. fadd acc (quantity l)) q (takeWhile (\<lambda>l. t \<le> price l) xs),
      foldl (\<lambda>acc l. fadd acc (fmul (quantity l) (price l))) c
        (takeWhile (\<lambda>l. t \<le> price l) xs))"
  by (induction xs arbitrary: q c) simp_all

lemma accAskLoop_takeWhile:
  "accAskLoop t xs (q, c) =
     (foldl (\<lambda>acc l. fadd acc (quantity l)) q (takeWhile (\<lambda>l. price l \<le> t) xs),
      foldl (\<lambda>acc l. fadd acc (fmul (quantity l) (price l))) c
        (takeWhile (\<lambda>l. price l \<le> t) xs))"
  by (induction xs arbitrary: q c) simp_all

lemma takeWhile_sorted_filter:
  assumes "sorted (map k xs)"
    and "\<And>x y. k x \<le> k y \<Longrightarrow> P y \<Longrightarrow> P x"
  shows "takeWhile P xs = filter P xs"
  using assms(1)
proof (induction xs)
  case Nil
  show ?case by simp
next
  case (Cons a xs)
  show ?case
  proof (cases "P a")
    case True
    with Cons show ?thesis by simp
  next
    case False
    have "\<not> P y" if "y \<in> set xs" for y
    proof -
      from Cons.prems that have "k a \<le> k y" by auto
      with False assms(2) show ?thesis by blast
    qed
    then have "filter P xs = []"
      by (simp add: filter_empty_conv)
    with False show ?thesis by simp
  qed
qed

lemma takeWhile_sortedBids:
  "takeWhile (\<lambda>l. t \<le> price l) (sortedBids ob) = bidsAtOrAbove t ob"
  unfolding bidsAtOrAbove_def
proof (rule takeWhile_sorted_filter[where k = "\<lambda>l. - price l"])
  show "sorted (map (\<lambda>l. - price l) (sortedBids ob))"
    unfolding sortedBids_def by (rule sorted_sort_key)
qed simp

lemma takeWhile_sortedAsks:
  "takeWhile (\<lambda>l. price l \<le> t) (sortedAsks ob) = asksAtOrBelow t ob"
  unfolding asksAtOrBelow_def
proof (rule takeWhile_sorted_filter[where k = price])
  show "sorted (map price (sortedAsks ob))"
    unfolding sortedAsks_def by (rule sorted_sort_key)
qed simp

lemma sortedAsks_ascending: "sorted (map price (sortedAsks ob))"
  unfolding sortedAsks_def by (rule sorted_sort_key)

lemma sortedBids_descending: "sorted_wrt (\<lambda>x y. price y \<le> price x) (sortedBids ob)"
proof -
  have "sorted (map (\<lambda>l. - price l) (sortedBids ob))"
    unfolding sortedBids_def by (rule sorted_sort_key)
  then show ?thesis
    by (simp add: sorted_wrt_map)
qed

lemma sortedBids_side:
  "set (sortedBids ob) = snd ` set (bids ob) \<and> length (sortedBids ob) = length (bids ob)"
  by (simp add: sortedBids_def)

lemma sortedAsks_side:
  "set (sortedAsks ob) = snd ` set (asks ob) \<and> length (sortedAsks ob) = length (asks ob)"
  by (simp add: sortedAsks_def)

lemma bidsAtOrAbove_side:
  "set (bidsAtOrAbove t ob) = {l \<in> snd ` set (bids ob). t \<le> price l} \<and>
   length (bidsAtOrAbove t ob) = length (filter (\<lambda>l. t \<le> price l) (map snd (bids ob))) \<and>
   sorted_wrt (\<lambda>x y. price y \<le> price x) (bidsAtOrAbove t ob)"
proof -
  have "sorted_wrt (\<lambda>x y. price y \<le> price x) (bidsAtOrAbove t ob)"
    unfolding bidsAtOrAbove_def by (rule sorted_wrt_filter) (rule sortedBids_descending)
  moreover have "length (bidsAtOrAbove t ob) =
      length (filter (\<lambda>l. t \<le> price l) (map snd (bids ob)))"
    by (simp add: bidsAtOrAbove_def sortedBids_def filter_sort)
  moreover have "set (bidsAtOrAbove t ob) = {l \<in> snd ` set (bids ob). t \<le> price l}"
    by (auto simp: bidsAtOrAbove_def sortedBids_def)
  ultimately show ?thesis by blast
qed

lemma asksAtOrBelow_side:
  "set (asksAtOrBelow t ob) = {l \<in> snd ` set (asks ob). price l \<le> t} \<and>
   length (asksAtOrBelow t ob) = length (filter (\<lambda>l. price l \<le> t) (map snd (asks ob))) \<and>
   sorted_wrt (\<lambda>x y. price x \<le> price y) (asksAtOrBelow t ob)"
proof -
  have "sorted_wrt (\<lambda>x y. price x \<le> price y) (sortedAsks ob)"
    using sortedAsks_ascending[of ob] by (simp add: sorted_wrt_map)
  then have "sorted_wrt (\<lambda>x y. price x \<le> price y) (asksAtOrBelow t ob)"
    unfolding asksAtOrBelow_def by (rule sorted_wrt_filter)
  moreover have "length (asksAtOrBelow t ob) =
      length (filter (\<lambda>l. price l \<le> t) (map snd (asks ob)))"
    by (simp add: asksAtOrBelow_def sortedAsks_def filter_sort)
  moreover have "set (asksAtOrBelow t ob) = {l \<in> snd ` set (asks ob). price l \<le> t}"
    by (auto simp: asksAtOrBelow_def sortedAsks_def)
  ultimately show ?thesis by blast
qed

lemma accBidLoop_sum:
  "accBidLoop t (sortedBids ob) (0, 0) =
     (runningSum quantity (bidsAtOrAbove t ob),
      runningSum (\<lambda>l. fmul (price l) (quantity l)) (bidsAtOrAbove t ob))"
  unfolding accBidLoop_takeWhile takeWhile_sortedBids runningSum_def
  by (simp add: fmul_commute)

lemma accAskLoop_sum:
  "accAskLoop t (sortedAsks ob) (0, 0) =
     (runningSum quantity (asksAtOrBelow t ob),
      runningSum (\<lambda>l. fmul (price l) (quantity l)) (asksAtOrBelow t ob))"
  unfolding accAskLoop_takeWhile takeWhile_sortedAsks runningSum_def
  by (simp add: fmul_commute)

text \<open>
  Claim C4. For every book and target price, the bid part of
  \<open>getAccumulatedQuantityToPrice\<close> has as quantity the sum of the quantities of all bid
  levels priced at or above the target, and as cost the sum of price times quantity over
  the same levels, although the loop leaves the sorted side at the first level below the
  target; the ask part is the same with the levels priced at or below the target. The
  sums are the running totals of double arithmetic over these levels in the order of the
  walk. An average price is cost over quantity when the quantity is positive and 0
  otherwise, and the total adds the quantities and the costs of the two sides.
\<close>

theorem accumulated_to_price:
  assumes "r = getAccumulatedQuantityToPrice t sel ob"
  shows
  "(sel = ''bids'' \<or> sel = ''both'' \<longrightarrow>
      acc_quantity (ap_bids r) = runningSum quantity (bidsAtOrAbove t ob) \<and>
      acc_cost (ap_bids r) = runningSum (\<lambda>l. fmul (price l) (quantity l)) (bidsAtOrAbove t ob)) \<and>
   (sel = ''asks'' \<or> sel = ''both'' \<longrightarrow>
      acc_quantity (ap_asks r) = runningSum quantity (asksAtOrBelow t ob) \<and>
      acc_cost (ap_asks r) = runningSum (\<lambda>l. fmul (price l) (quantity l)) (asksAtOrBelow t ob)) \<and>
   set (bidsAtOrAbove t ob) = {l \<in> snd ` set (bids ob). t \<le> price l} \<and>
   length (bidsAtOrAbove t ob) = length (filter (\<lambda>l. t \<le> price l) (map snd (bids ob))) \<and>
   sorted_wrt (\<lambda>x y. price y \<le> price x) (bidsAtOrAbove t ob) \<and>
   set (asksAtOrBelow t ob) = {l \<in> snd ` set (asks ob). price l \<le> t} \<and>
   length (asksAtOrBelow t ob) = length (filter (\<lambda>l. price l \<le> t) (map snd (asks ob))) \<and>
   sorted_wrt (\<lambda>x y. price x \<le> price y) (asksAtOrBelow t ob) \<and>
   acc_averagePrice (ap_bids r) =
     (if 0 < acc_quantity (ap_bids r) then fdiv (acc_cost (ap_bids r)) (acc_quantity (ap_bids r))
      else 0) \<and>
   acc_averagePrice (ap_asks r) =
     (if 0 < acc_quantity (ap_asks r) then fdiv (acc_cost (ap_asks r)) (acc_quantity (ap_asks r))
      else 0) \<and>
   acc_quantity (ap_total r) = fadd (acc_quantity (ap_bids r)) (acc_quantity (ap_asks r)) \<and>
   acc_cost (ap_total r) = fadd (acc_cost (ap_bids r)) (acc_cost (ap_asks r))"
proof -
  have b: "acc_quantity (ap_bids r) = runningSum quantity (bidsAtOrAbove t ob) \<and>
      acc_cost (ap_bids r) = runningSum (\<lambda>l. fmul (price l) (quantity l)) (bidsAtOrAbove t ob)"
    if "sel = ''bids'' \<or> sel = ''both''"
    using that unfolding assms getAccumulatedQuantityToPrice_def accBidLoop_sum
    by (auto simp: accumulated_of_def split: prod.splits)
  have a: "acc_quantity (ap_asks r) = runningSum quantity (asksAtOrBelow t ob) \<and>
      acc_cost (ap_asks r) = runningSum (\<lambda>l. fmul (price l) (quantity l)) (asksAtOrBelow t ob)"
    if "sel = ''asks'' \<or> sel = ''both''"
    using that unfolding assms getAccumulatedQuantityToPrice_def accAskLoop_sum
    by (auto simp: accumulated_of_def split: prod.splits)
  have rest: "acc_averagePrice (ap_bids r) =
     (if 0 < acc_quantity (ap_bids r) then fdiv (acc_cost (ap_bids r)) (acc_quantity (ap_bids r))
      else 0)"
   "acc_averagePrice (ap_asks r) =
     (if 0 < acc_quantity (ap_asks r) then fdiv (acc_cost (ap_asks r)) (acc_quantity (ap_asks r))
      else 0)"
   "acc_quantity (ap_total r) = fadd (acc_quantity (ap_bids r)) (acc_quantity (ap_asks r))"
   "acc_cost (ap_total r) = fadd (acc_cost (ap_bids r)) (acc_cost (ap_asks r))"
    unfolding assms getAccumulatedQuantityToPrice_def
    by (simp_all add: accumulated_of_def Let_def split: prod.splits)
  from a b rest bidsAtOrAbove_side[of t ob] asksAtOrBelow_side[of t ob] show ?thesis
    by blast
qed

lemmas double_eval =
  rnd_def ulp_def ulpUp.simps ulpDown.simps roundEven_def fadd_def fsub_def fmul_def fdiv_def

lemma ladderBook_sides:
  "map snd (bids ladderBook) = [new_PriceLevel 1 98 2 1, new_PriceLevel 2 97 5 1, new_PriceLevel 3 99 1 1]"
  "map snd (asks ladderBook) = [new_PriceLevel 4 101 3 1, new_PriceLevel 5 100 2 1, new_PriceLevel 6 102 10 1]"
  by (simp_all add: ladderBook_def addAsk_def addBid_def new_OrderBook_def)

lemma ladderBook_sortedAsks:
  "sortedAsks ladderBook = [new_PriceLevel 5 100 2 1, new_PriceLevel 4 101 3 1, new_PriceLevel 6 102 10 1]"
  by (simp add: sortedAsks_def ladderBook_sides new_PriceLevel_def)

lemma ladderBook_sortedBids:
  "sortedBids ladderBook = [new_PriceLevel 3 99 1 1, new_PriceLevel 1 98 2 1, new_PriceLevel 2 97 5 1]"
  by (simp add: sortedBids_def ladderBook_sides new_PriceLevel_def)

lemma decimal_doubles:
  "rnd (1 / 10) = 3602879701896397 / 36028797018963968"
  "rnd (2 / 10) = 3602879701896397 / 18014398509481984"
  "rnd (3 / 10) = 5404319552844595 / 18014398509481984"
  "rnd (1 / 5) = 3602879701896397 / 18014398509481984"
  by (simp_all add: double_eval)

lemma decimalBook_sortedBids:
  "sortedBids decimalBook =
     [new_PriceLevel 1 99 (rnd (3 / 10)) 1, new_PriceLevel 3 98 (rnd (2 / 10)) 1,
      new_PriceLevel 2 97 (rnd (1 / 10)) 1]"
  by (simp add: sortedBids_def decimalBook_def addBid_def new_OrderBook_def new_PriceLevel_def
      decimal_doubles)

lemma ladder_sums:
  "runningSum quantity (bidsAtOrAbove 98 ladderBook) = 3"
  "runningSum (\<lambda>l. fmul (price l) (quantity l)) (bidsAtOrAbove 98 ladderBook) = 295"
  "runningSum quantity (asksAtOrBelow 101 ladderBook) = 5"
  "runningSum quantity (bidsAtOrAbove 101 ladderBook) = 0"
  by (simp_all add: runningSum_def bidsAtOrAbove_def asksAtOrBelow_def ladderBook_sortedBids
      ladderBook_sortedAsks new_PriceLevel_def double_eval)

lemma decimal_sums:
  "map price (bidsAtOrAbove 97 decimalBook) = [99, 98, 97]"
  "runningSum quantity (bidsAtOrAbove 97 decimalBook) = 5404319552844595 / 9007199254740992"
  by (simp_all add: runningSum_def bidsAtOrAbove_def decimalBook_sortedBids new_PriceLevel_def
      decimal_doubles)
     (simp add: double_eval)

theorem accumulated_to_price_witness:
  "acc_quantity (ap_bids (getAccumulatedQuantityToPrice 98 ''bids'' ladderBook)) = 3 \<and>
   acc_cost (ap_bids (getAccumulatedQuantityToPrice 98 ''bids'' ladderBook)) = 295 \<and>
   acc_averagePrice (ap_bids (getAccumulatedQuantityToPrice 98 ''bids'' ladderBook)) =
     6919593177470293 / 70368744177664 \<and>
   acc_quantity (ap_asks (getAccumulatedQuantityToPrice 101 ''both'' ladderBook)) = 5 \<and>
   acc_quantity (ap_total (getAccumulatedQuantityToPrice 101 ''both'' ladderBook)) = 5 \<and>
   map price (bidsAtOrAbove 97 decimalBook) = [99, 98, 97] \<and>
   map quantity (bidsAtOrAbove 97 decimalBook) = [rnd (3 / 10), rnd (2 / 10), rnd (1 / 10)] \<and>
   acc_quantity (ap_bids (getAccumulatedQuantityToPrice 97 ''bids'' decimalBook)) =
     5404319552844595 / 9007199254740992 \<and>
   rnd (6 / 10) = 5404319552844595 / 9007199254740992"
proof -
  note t1 = accumulated_to_price[where t = 98 and sel = "''bids''" and ob = ladderBook, OF refl]
  note t2 = accumulated_to_price[where t = 101 and sel = "''both''" and ob = ladderBook, OF refl]
  note t3 = accumulated_to_price[where t = 97 and sel = "''bids''" and ob = decimalBook, OF refl]
  from t1 have q1: "acc_quantity (ap_bids (getAccumulatedQuantityToPrice 98 ''bids'' ladderBook)) = 3"
    and c1: "acc_cost (ap_bids (getAccumulatedQuantityToPrice 98 ''bids'' ladderBook)) = 295"
    by (simp_all add: ladder_sums)
  from t1 have "acc_averagePrice (ap_bids (getAccumulatedQuantityToPrice 98 ''bids'' ladderBook)) =
      fdiv 295 3"
    unfolding q1 c1 by simp
  then have a1: "acc_averagePrice (ap_bids (getAccumulatedQuantityToPrice 98 ''bids'' ladderBook)) =
      6919593177470293 / 70368744177664"
    by (simp add: double_eval)
  from t2 have q2: "acc_quantity (ap_asks (getAccumulatedQuantityToPrice 101 ''both'' ladderBook)) = 5"
    and b2: "acc_quantity (ap_bids (getAccumulatedQuantityToPrice 101 ''both'' ladderBook)) = 0"
    by (simp_all add: ladder_sums)
  from t2 have "acc_quantity (ap_total (getAccumulatedQuantityToPrice 101 ''both'' ladderBook)) =
      fadd 0 5"
    unfolding q2 b2 by simp
  then have t: "acc_quantity (ap_total (getAccumulatedQuantityToPrice 101 ''both'' ladderBook)) = 5"
    by (simp add: double_eval)
  from t3 have q3: "acc_quantity (ap_bids (getAccumulatedQuantityToPrice 97 ''bids'' decimalBook)) =
     5404319552844595 / 9007199254740992"
    by (simp add: decimal_sums)
  have m: "map quantity (bidsAtOrAbove 97 decimalBook) = [rnd (3 / 10), rnd (2 / 10), rnd (1 / 10)]"
    by (simp add: bidsAtOrAbove_def decimalBook_sortedBids new_PriceLevel_def)
  have r: "rnd (6 / 10) = 5404319552844595 / 9007199254740992"
    by (simp add: double_eval)
  from q1 c1 a1 q2 t decimal_sums(1) m q3 r show ?thesis
    by simp
qed

lemma consumeLoop_walk:
  "0 \<le> rem \<Longrightarrow>
   consumeLoop ls (rem, tc, lc, fp) =
     (leftAfter rem (walkLevels rem ls),
      foldl (\<lambda>acc c. fadd acc (lc_cost c)) tc (walkLevels rem ls),
      lc @ walkLevels rem ls,
      lastPrice fp (walkLevels rem ls))"
proof (induction ls arbitrary: rem tc lc fp)
  case Nil
  show ?case by (simp add: lastPrice_def leftAfter_def)
next
  case (Cons l ls)
  show ?case
  proof (cases "rem = 0")
    case True
    then show ?thesis by (simp add: lastPrice_def leftAfter_def)
  next
    case False
    with Cons.prems have pos: "0 < rem" by simp
    show ?thesis
      using pos False Cons.IH[OF fsub_min_nonneg[of rem "quantity l"]]
      by (simp add: Let_def lastPrice_def leftAfter_def)
  qed
qed

lemma walk_remaining_nonneg: "0 \<le> rem \<Longrightarrow> 0 \<le> leftAfter rem (walkLevels rem ls)"
proof (induction ls arbitrary: rem)
  case Nil
  then show ?case by (simp add: leftAfter_def)
next
  case (Cons l ls)
  from Cons.IH[OF fsub_min_nonneg[of rem "quantity l"]] Cons.prems show ?case
    by (simp add: leftAfter_def)
qed

lemma getMarketImpact_buy:
  assumes "0 < n"
  shows "\<exists>r. getMarketImpact n ''buy'' ob = Some r \<and>
     mi_levelsConsumed r = walkLevels n (sortedAsks ob) \<and>
     mi_remainingSize r = leftAfter n (mi_levelsConsumed r) \<and>
     mi_totalCost r = runningSum lc_cost (mi_levelsConsumed r) \<and>
     mi_filledSize r = fsub n (mi_remainingSize r) \<and>
     mi_finalPrice r = lastPrice 0 (mi_levelsConsumed r) \<and>
     mi_canFill r = (mi_remainingSize r = 0)"
proof -
  have nn: "0 \<le> n" using assms by simp
  show ?thesis
    using assms by (simp add: getMarketImpact_def consumeLoop_walk[OF nn] Let_def runningSum_def)
qed

lemma getMarketImpact_other:
  assumes "0 < n" and "sd \<noteq> ''buy''"
  shows "\<exists>r. getMarketImpact n sd ob = Some r \<and>
     mi_levelsConsumed r = walkLevels n (sortedBids ob) \<and>
     mi_remainingSize r = leftAfter n (mi_levelsConsumed r) \<and>
     mi_totalCost r = runningSum lc_cost (mi_levelsConsumed r) \<and>
     mi_filledSize r = fsub n (mi_remainingSize r) \<and>
     mi_finalPrice r = lastPrice 0 (mi_levelsConsumed r) \<and>
     mi_canFill r = (mi_remainingSize r = 0) \<and>
     mi_side r = sd \<and>
     mi_averagePrice r = js_div (mi_totalCost r) (mi_filledSize r) \<and>
     mi_slippage r =
       js_or_zero
         (js_times
            (js_divide (js_minus (bestPrice (getBids (Some 1) ob)) (mi_averagePrice r))
               (bestPrice (getBids (Some 1) ob)))
            (Num 100))"
proof -
  have nn: "0 \<le> n" using assms by simp
  show ?thesis
    using assms by (simp add: getMarketImpact_def consumeLoop_walk[OF nn] Let_def runningSum_def)
qed

text \<open>
  Claim C3, as amended. For a positive order size, \<open>getMarketImpact\<close> walks the opposite
  side, all of it, in price order (asks ascending for \<open>buy\<close>, bids descending for
  \<open>sell\<close>) and consumes \<open>min(remaining, quantity)\<close> at each level until nothing remains
  or the side ends. In the result the remaining size is the order size less the consumed
  quantities, subtracted one by one in double arithmetic, and is not negative; the filled
  size is the order size minus the remaining size in double arithmetic; the total cost is
  the running sum of the costs of the consumed levels; and \<open>canFill\<close> says that nothing
  remains. For an order size that is not positive the result is \<open>null\<close>.
\<close>

theorem market_impact_walk:
  "(0 < n \<longrightarrow>
      (\<exists>r. getMarketImpact n ''buy'' ob = Some r \<and>
         mi_levelsConsumed r = walkLevels n (sortedAsks ob) \<and>
         mi_remainingSize r = leftAfter n (mi_levelsConsumed r) \<and>
         0 \<le> mi_remainingSize r \<and>
         mi_filledSize r = fsub n (mi_remainingSize r) \<and>
         mi_totalCost r = runningSum lc_cost (mi_levelsConsumed r) \<and>
         (mi_canFill r \<longleftrightarrow> mi_remainingSize r = 0)) \<and>
      (\<exists>r. getMarketImpact n ''sell'' ob = Some r \<and>
         mi_levelsConsumed r = walkLevels n (sortedBids ob) \<and>
         mi_remainingSize r = leftAfter n (mi_levelsConsumed r) \<and>
         0 \<le> mi_remainingSize r \<and>
         mi_filledSize r = fsub n (mi_remainingSize r) \<and>
         mi_totalCost r = runningSum lc_cost (mi_levelsConsumed r) \<and>
         (mi_canFill r \<longleftrightarrow> mi_remainingSize r = 0))) \<and>
   (n \<le> 0 \<longrightarrow> getMarketImpact n sd ob = None) \<and>
   sorted (map price (sortedAsks ob)) \<and>
   set (sortedAsks ob) = snd ` set (asks ob) \<and>
   length (sortedAsks ob) = length (asks ob) \<and>
   sorted_wrt (\<lambda>x y. price y \<le> price x) (sortedBids ob) \<and>
   set (sortedBids ob) = snd ` set (bids ob) \<and>
   length (sortedBids ob) = length (bids ob)"
proof -
  have buy: "\<exists>r. getMarketImpact n ''buy'' ob = Some r \<and>
         mi_levelsConsumed r = walkLevels n (sortedAsks ob) \<and>
         mi_remainingSize r = leftAfter n (mi_levelsConsumed r) \<and>
         0 \<le> mi_remainingSize r \<and>
         mi_filledSize r = fsub n (mi_remainingSize r) \<and>
         mi_totalCost r = runningSum lc_cost (mi_levelsConsumed r) \<and>
         (mi_canFill r \<longleftrightarrow> mi_remainingSize r = 0)" if "0 < n"
  proof -
    from getMarketImpact_buy[OF that, of ob] obtain r where r:
      "getMarketImpact n ''buy'' ob = Some r"
      "mi_levelsConsumed r = walkLevels n (sortedAsks ob)"
      "mi_remainingSize r = leftAfter n (mi_levelsConsumed r)"
      "mi_totalCost r = runningSum lc_cost (mi_levelsConsumed r)"
      "mi_filledSize r = fsub n (mi_remainingSize r)"
      "mi_canFill r = (mi_remainingSize r = 0)"
      by blast
    have "0 \<le> mi_remainingSize r"
      unfolding r(3) r(2) using that by (intro walk_remaining_nonneg) simp
    with r show ?thesis by simp
  qed
  have sell: "\<exists>r. getMarketImpact n ''sell'' ob = Some r \<and>
         mi_levelsConsumed r = walkLevels n (sortedBids ob) \<and>
         mi_remainingSize r = leftAfter n (mi_levelsConsumed r) \<and>
         0 \<le> mi_remainingSize r \<and>
         mi_filledSize r = fsub n (mi_remainingSize r) \<and>
         mi_totalCost r = runningSum lc_cost (mi_levelsConsumed r) \<and>
         (mi_canFill r \<longleftrightarrow> mi_remainingSize r = 0)" if "0 < n"
  proof -
    have ne: "''sell'' \<noteq> ''buy''" by simp
    from getMarketImpact_other[OF that ne, of ob] obtain r where r:
      "getMarketImpact n ''sell'' ob = Some r"
      "mi_levelsConsumed r = walkLevels n (sortedBids ob)"
      "mi_remainingSize r = leftAfter n (mi_levelsConsumed r)"
      "mi_totalCost r = runningSum lc_cost (mi_levelsConsumed r)"
      "mi_filledSize r = fsub n (mi_remainingSize r)"
      "mi_canFill r = (mi_remainingSize r = 0)"
      by blast
    have "0 \<le> mi_remainingSize r"
      unfolding r(3) r(2) using that by (intro walk_remaining_nonneg) simp
    with r show ?thesis by simp
  qed
  have null: "getMarketImpact n sd ob = None" if "n \<le> 0"
    using that by (simp add: getMarketImpact_def)
  from buy sell null sortedAsks_ascending sortedBids_descending
    sortedAsks_side[of ob] sortedBids_side[of ob]
  show ?thesis
    by blast
qed

lemma ladderBook_buy4:
  "getMarketImpact 4 ''buy'' ladderBook =
     Some \<lparr>mi_orderSize = 4, mi_side = ''buy'', mi_totalCost = 402,
           mi_averagePrice = Num (201 / 2), mi_finalPrice = 101, mi_remainingSize = 0,
           mi_filledSize = 4,
           mi_levelsConsumed =
             [\<lparr>lc_price = 100, lc_quantity = 2, lc_cost = 200\<rparr>,
              \<lparr>lc_price = 101, lc_quantity = 2, lc_cost = 202\<rparr>],
           mi_slippage = Num (1 / 2), mi_canFill = True\<rparr>"
  by (simp add: getMarketImpact_def getAsks_def slice0_def ladderBook_sortedAsks
      new_PriceLevel_def bestPrice_def first_def js_div_def Let_def double_eval)

lemma ladderBook_sell2:
  "getMarketImpact 2 ''sell'' ladderBook =
     Some \<lparr>mi_orderSize = 2, mi_side = ''sell'', mi_totalCost = 197,
           mi_averagePrice = Num (197 / 2), mi_finalPrice = 98, mi_remainingSize = 0,
           mi_filledSize = 2,
           mi_levelsConsumed =
             [\<lparr>lc_price = 99, lc_quantity = 1, lc_cost = 99\<rparr>,
              \<lparr>lc_price = 98, lc_quantity = 1, lc_cost = 98\<rparr>],
           mi_slippage = Num (4549090532697471 / 9007199254740992), mi_canFill = True\<rparr>"
  by (simp add: getMarketImpact_def getBids_def slice0_def ladderBook_sortedBids
      new_PriceLevel_def bestPrice_def first_def js_div_def Let_def double_eval)

lemma emptyBook_buy10:
  "getMarketImpact 10 ''buy'' (new_OrderBook 0 ''btcusdt'') =
     Some \<lparr>mi_orderSize = 10, mi_side = ''buy'', mi_totalCost = 0,
           mi_averagePrice = NaN, mi_finalPrice = 0, mi_remainingSize = 10,
           mi_filledSize = 0, mi_levelsConsumed = [], mi_slippage = Num 0, mi_canFill = False\<rparr>"
  by (simp add: getMarketImpact_def getAsks_def slice0_def sortedAsks_def new_OrderBook_def
      bestPrice_def first_def js_div_def Let_def double_eval)

lemma residueBook_sortedAsks:
  "sortedAsks residueBook =
     [new_PriceLevel 1 100 (3602879701896397 / 36028797018963968) 1,
      new_PriceLevel 2 101 (3602879701896397 / 36028797018963968) 1,
      new_PriceLevel 3 102 (3602879701896397 / 18014398509481984) 1]"
  by (simp add: sortedAsks_def residueBook_def addAsk_def new_OrderBook_def new_PriceLevel_def
      decimal_doubles)

lemma residueBook_buy:
  "map_option (\<lambda>r. (mi_remainingSize r, mi_canFill r))
     (getMarketImpact (rnd (4 / 10)) ''buy'' residueBook) = Some (1 / 2 ^ 55, False)"
proof -
  have d: "rnd (2 / 5) = 3602879701896397 / 9007199254740992"
    by (simp add: double_eval)
  have l: "consumeLoop (sortedAsks residueBook) (3602879701896397 / 9007199254740992, 0, [], 0) =
     (1 / 2 ^ 55, 81 / 2,
      [\<lparr>lc_price = 100, lc_quantity = 3602879701896397 / 36028797018963968, lc_cost = 10\<rparr>,
       \<lparr>lc_price = 101, lc_quantity = 3602879701896397 / 36028797018963968,
        lc_cost = 1421448632388813 / 140737488355328\<rparr>,
       \<lparr>lc_price = 102, lc_quantity = 3602879701896397 / 18014398509481984,
        lc_cost = 5742089524897383 / 281474976710656\<rparr>],
      102)"
    by (simp add: residueBook_sortedAsks new_PriceLevel_def Let_def double_eval)
  show ?thesis
    by (simp add: getMarketImpact_def d l Let_def)
qed

theorem market_impact_walk_witness:
  "(0::real) < 4 \<and>
   getMarketImpact 4 ''buy'' ladderBook =
     Some \<lparr>mi_orderSize = 4, mi_side = ''buy'', mi_totalCost = 402,
           mi_averagePrice = Num (201 / 2), mi_finalPrice = 101, mi_remainingSize = 0,
           mi_filledSize = 4,
           mi_levelsConsumed =
             [\<lparr>lc_price = 100, lc_quantity = 2, lc_cost = 200\<rparr>,
              \<lparr>lc_price = 101, lc_quantity = 2, lc_cost = 202\<rparr>],
           mi_slippage = Num (1 / 2), mi_canFill = True\<rparr> \<and>
   walkLevels 4 (sortedAsks ladderBook) =
     [\<lparr>lc_price = 100, lc_quantity = 2, lc_cost = 200\<rparr>,
      \<lparr>lc_price = 101, lc_quantity = 2, lc_cost = 202\<rparr>] \<and>
   (0::real) < 2 \<and>
   map_option mi_levelsConsumed (getMarketImpact 2 ''sell'' ladderBook) =
     Some [\<lparr>lc_price = 99, lc_quantity = 1, lc_cost = 99\<rparr>,
           \<lparr>lc_price = 98, lc_quantity = 1, lc_cost = 98\<rparr>] \<and>
   walkLevels 2 (sortedBids ladderBook) =
     [\<lparr>lc_price = 99, lc_quantity = 1, lc_cost = 99\<rparr>,
      \<lparr>lc_price = 98, lc_quantity = 1, lc_cost = 98\<rparr>] \<and>
   map price (sortedBids ladderBook) = [99, 98, 97] \<and>
   map price (sortedAsks ladderBook) = [100, 101, 102] \<and>
   (- 1::real) \<le> 0 \<and>
   getMarketImpact (- 1) ''sell'' ladderBook = None \<and>
   map_option (\<lambda>r. (mi_remainingSize r, mi_canFill r))
     (getMarketImpact (rnd (4 / 10)) ''buy'' residueBook) = Some (1 / 2 ^ 55, False)"
proof -
  have p: "(0::real) < 4" "(0::real) < 2" and np: "(- 1::real) \<le> 0" by simp_all
  from market_impact_walk[of 4 ladderBook "''sell''"] p(1)
  obtain r where r: "getMarketImpact 4 ''buy'' ladderBook = Some r"
    "mi_levelsConsumed r = walkLevels 4 (sortedAsks ladderBook)"
    by blast
  from r have w: "walkLevels 4 (sortedAsks ladderBook) =
     [\<lparr>lc_price = 100, lc_quantity = 2, lc_cost = 200\<rparr>,
      \<lparr>lc_price = 101, lc_quantity = 2, lc_cost = 202\<rparr>]"
    unfolding ladderBook_buy4 by auto
  from market_impact_walk[of 2 ladderBook "''sell''"] p(2)
  obtain s where s: "getMarketImpact 2 ''sell'' ladderBook = Some s"
    "mi_levelsConsumed s = walkLevels 2 (sortedBids ladderBook)"
    by blast
  from s have ws: "walkLevels 2 (sortedBids ladderBook) =
     [\<lparr>lc_price = 99, lc_quantity = 1, lc_cost = 99\<rparr>,
      \<lparr>lc_price = 98, lc_quantity = 1, lc_cost = 98\<rparr>]"
    unfolding ladderBook_sell2 by auto
  have ls: "map_option mi_levelsConsumed (getMarketImpact 2 ''sell'' ladderBook) =
     Some [\<lparr>lc_price = 99, lc_quantity = 1, lc_cost = 99\<rparr>,
           \<lparr>lc_price = 98, lc_quantity = 1, lc_cost = 98\<rparr>]"
    unfolding ladderBook_sell2 by simp
  have so: "map price (sortedBids ladderBook) = [99, 98, 97]"
    "map price (sortedAsks ladderBook) = [100, 101, 102]"
    by (simp_all add: ladderBook_sortedBids ladderBook_sortedAsks new_PriceLevel_def)
  from market_impact_walk[of "- 1" ladderBook "''sell''"] np
  have "getMarketImpact (- 1) ''sell'' ladderBook = None"
    by blast
  with p np w ws ls so ladderBook_buy4 residueBook_buy show ?thesis by simp
qed

lemma rounding_doubles:
  "rnd (2804 / 1000) = 6314046677573435 / 2251799813685248"
  "rnd (734 / 1000) = 413205265811243 / 562949953421312"
  "rnd (1965 / 1000) = 8849573267783025 / 4503599627370496"
  "rnd (701 / 250) = 6314046677573435 / 2251799813685248"
  "rnd (367 / 500) = 413205265811243 / 562949953421312"
  "rnd (393 / 200) = 8849573267783025 / 4503599627370496"
  by (simp_all add: double_eval)

lemma roundingBook_sortedAsks:
  "sortedAsks roundingBook =
     [new_PriceLevel 1 100 (413205265811243 / 562949953421312) 1,
      new_PriceLevel 2 101 (8849573267783025 / 4503599627370496) 1]"
  by (simp add: sortedAsks_def roundingBook_def addAsk_def new_OrderBook_def new_PriceLevel_def
      rounding_doubles)

lemma roundingBook_loop:
  "consumeLoop (sortedAsks roundingBook) (6314046677573435 / 2251799813685248, 0, [], 0) =
     (472877960873901 / 4503599627370496,
      1195674914741289 / 4398046511104,
      [\<lparr>lc_price = 100, lc_quantity = 413205265811243 / 562949953421312,
        lc_cost = 2582532911320269 / 35184372088832\<rparr>,
       \<lparr>lc_price = 101, lc_quantity = 8849573267783025 / 4503599627370496,
        lc_cost = 6982866406610043 / 35184372088832\<rparr>],
      101)"
  by (simp add: roundingBook_sortedAsks new_PriceLevel_def Let_def double_eval)

text \<open>
  Claim C3 as stated has filled size plus remaining size equal to the order size. With
  asks of 0.734 at 100 and 1.965 at 101, a buy of 2.804 leaves 0.10499999999999976 and
  fills 2.699: their sum is 2.8039999999999994 in double arithmetic, and is not 2.804 as
  a sum of reals either.
\<close>

theorem market_impact_walk_counterexample:
  "0 < rnd (2804 / 1000) \<and>
   map_option (\<lambda>r. (mi_orderSize r, mi_remainingSize r, mi_filledSize r))
     (getMarketImpact (rnd (2804 / 1000)) ''buy'' roundingBook) =
     Some (6314046677573435 / 2251799813685248,
           472877960873901 / 4503599627370496,
           1519401924284121 / 562949953421312) \<and>
   fadd (1519401924284121 / 562949953421312) (472877960873901 / 4503599627370496) =
     3157023338786717 / 1125899906842624 \<and>
   (3157023338786717 / 1125899906842624 :: real) \<noteq> 6314046677573435 / 2251799813685248 \<and>
   (1519401924284121 / 562949953421312 + 472877960873901 / 4503599627370496 :: real) \<noteq>
     6314046677573435 / 2251799813685248"
proof -
  have 1: "0 < rnd (2804 / 1000)"
    by (simp add: rounding_doubles)
  have 2: "map_option (\<lambda>r. (mi_orderSize r, mi_remainingSize r, mi_filledSize r))
     (getMarketImpact (rnd (2804 / 1000)) ''buy'' roundingBook) =
     Some (6314046677573435 / 2251799813685248,
           472877960873901 / 4503599627370496,
           1519401924284121 / 562949953421312)"
    by (simp add: getMarketImpact_def rounding_doubles roundingBook_loop Let_def)
       (simp add: double_eval)
  have 3: "fadd (1519401924284121 / 562949953421312) (472877960873901 / 4503599627370496) =
     3157023338786717 / 1125899906842624"
    by (simp add: double_eval)
  from 1 2 3 show ?thesis by simp
qed

text \<open>
  Claim C10. With any side other than the string \<open>buy\<close>, which is what the route hands
  over for any other non-empty \<open>?side=\<close>, \<open>getMarketImpact\<close> returns what it returns
  for \<open>sell\<close>, with the given side echoed in the field \<open>side\<close>: it walks the bids in
  descending price and takes the slippage against the best bid.
\<close>

theorem other_side_is_sell:
  assumes "sd \<noteq> ''buy''"
  shows
  "getMarketImpact n sd ob = map_option (\<lambda>r. r\<lparr>mi_side := sd\<rparr>) (getMarketImpact n ''sell'' ob) \<and>
   (0 < n \<longrightarrow>
      (\<exists>r. getMarketImpact n sd ob = Some r \<and>
         mi_levelsConsumed r = walkLevels n (sortedBids ob) \<and>
         mi_slippage r =
           js_or_zero
             (js_times
                (js_divide (js_minus (bestPrice (getBids (Some 1) ob)) (mi_averagePrice r))
                   (bestPrice (getBids (Some 1) ob)))
                (Num 100)))) \<and>
   sorted_wrt (\<lambda>x y. price y \<le> price x) (sortedBids ob) \<and>
   (sd \<noteq> [] \<longrightarrow> routeSide (Some sd) = sd)"
proof -
  have 1: "getMarketImpact n sd ob =
      map_option (\<lambda>r. r\<lparr>mi_side := sd\<rparr>) (getMarketImpact n ''sell'' ob)"
    using assms by (simp add: getMarketImpact_def Let_def split: prod.splits)
  have 2: "\<exists>r. getMarketImpact n sd ob = Some r \<and>
         mi_levelsConsumed r = walkLevels n (sortedBids ob) \<and>
         mi_slippage r =
           js_or_zero
             (js_times
                (js_divide (js_minus (bestPrice (getBids (Some 1) ob)) (mi_averagePrice r))
                   (bestPrice (getBids (Some 1) ob)))
                (Num 100))" if "0 < n"
    using getMarketImpact_other[OF that assms, of ob] by blast
  have 3: "routeSide (Some sd) = sd" if "sd \<noteq> []"
    using that by (simp add: routeSide_def)
  from 1 2 3 sortedBids_descending show ?thesis by blast
qed

lemma ladderBook_SELL2:
  "getMarketImpact 2 ''SELL'' ladderBook =
     Some \<lparr>mi_orderSize = 2, mi_side = ''SELL'', mi_totalCost = 197,
           mi_averagePrice = Num (197 / 2), mi_finalPrice = 98, mi_remainingSize = 0,
           mi_filledSize = 2,
           mi_levelsConsumed =
             [\<lparr>lc_price = 99, lc_quantity = 1, lc_cost = 99\<rparr>,
              \<lparr>lc_price = 98, lc_quantity = 1, lc_cost = 98\<rparr>],
           mi_slippage = Num (4549090532697471 / 9007199254740992), mi_canFill = True\<rparr>"
  by (simp add: getMarketImpact_def getBids_def slice0_def ladderBook_sortedBids
      new_PriceLevel_def bestPrice_def first_def js_div_def Let_def double_eval)

theorem other_side_is_sell_witness:
  "''SELL'' \<noteq> ''buy'' \<and> (0::real) < 2 \<and> ''SELL'' \<noteq> [] \<and>
   routeSide (Some ''SELL'') = ''SELL'' \<and>
   getMarketImpact 2 ''SELL'' ladderBook =
     Some \<lparr>mi_orderSize = 2, mi_side = ''SELL'', mi_totalCost = 197,
           mi_averagePrice = Num (197 / 2), mi_finalPrice = 98, mi_remainingSize = 0,
           mi_filledSize = 2,
           mi_levelsConsumed =
             [\<lparr>lc_price = 99, lc_quantity = 1, lc_cost = 99\<rparr>,
              \<lparr>lc_price = 98, lc_quantity = 1, lc_cost = 98\<rparr>],
           mi_slippage = Num (4549090532697471 / 9007199254740992), mi_canFill = True\<rparr> \<and>
   map_option mi_totalCost (getMarketImpact 2 ''sell'' ladderBook) = Some 197 \<and>
   walkLevels 2 (sortedBids ladderBook) =
     [\<lparr>lc_price = 99, lc_quantity = 1, lc_cost = 99\<rparr>,
      \<lparr>lc_price = 98, lc_quantity = 1, lc_cost = 98\<rparr>]"
proof -
  have h: "''SELL'' \<noteq> ''buy''" "(0::real) < 2" "''SELL'' \<noteq> []" by simp_all
  note t = other_side_is_sell[OF h(1), of 2 ladderBook]
  from t h(3) have rs: "routeSide (Some ''SELL'') = ''SELL''" by blast
  from t h(2) obtain r where r: "getMarketImpact 2 ''SELL'' ladderBook = Some r"
    "mi_levelsConsumed r = walkLevels 2 (sortedBids ladderBook)"
    by blast
  from r have w: "walkLevels 2 (sortedBids ladderBook) =
     [\<lparr>lc_price = 99, lc_quantity = 1, lc_cost = 99\<rparr>,
      \<lparr>lc_price = 98, lc_quantity = 1, lc_cost = 98\<rparr>]"
    unfolding ladderBook_SELL2 by auto
  from t have "getMarketImpact 2 ''SELL'' ladderBook =
      map_option (\<lambda>r. r\<lparr>mi_side := ''SELL''\<rparr>) (getMarketImpact 2 ''sell'' ladderBook)"
    by blast
  then have "map_option mi_totalCost (getMarketImpact 2 ''SELL'' ladderBook) =
      map_option mi_totalCost (getMarketImpact 2 ''sell'' ladderBook)"
    by (simp add: option.map_comp comp_def)
  then have s: "map_option mi_totalCost (getMarketImpact 2 ''sell'' ladderBook) = Some 197"
    unfolding ladderBook_SELL2 by simp
  from h rs w s ladderBook_SELL2 show ?thesis by simp
qed

section \<open>The manager: depth updates and snapshots\<close>

lemma map_of_bids_addBid:
  "map_of (bids (addBid now p' q c ob)) p =
     (if p = p' then (if 0 < q then Some (new_PriceLevel now p' q c) else None)
      else map_of (bids ob) p)"
  by (simp add: addBid_def update_conv' delete_conv')

lemma map_of_asks_addAsk:
  "map_of (asks (addAsk now p' q c ob)) p =
     (if p = p' then (if 0 < q then Some (new_PriceLevel now p' q c) else None)
      else map_of (asks ob) p)"
  by (simp add: addAsk_def update_conv' delete_conv')

lemma isValidPriceLevel_parsed:
  "isValidPriceLevel pf l \<Longrightarrow>
   \<exists>p q. sanitizePriceLevel pf l = (Some p, Some q) \<and> 0 < p \<and> 0 \<le> q"
  by (auto simp: isValidPriceLevel_def sanitizePriceLevel_def gt0_def ge0_def
      split: option.splits)

lemma bidStep_fields:
  "asks (bidStep pf now ob l) = asks ob"
  "symbol (bidStep pf now ob l) = symbol ob"
  "lastUpdateId (bidStep pf now ob l) = lastUpdateId ob"
  "lastUpdateTime (bidStep pf now ob l) = lastUpdateTime ob"
  by (simp_all add: bidStep_def addBid_def split: prod.splits option.splits)

lemma askStep_fields:
  "bids (askStep pf now ob l) = bids ob"
  "symbol (askStep pf now ob l) = symbol ob"
  "lastUpdateId (askStep pf now ob l) = lastUpdateId ob"
  "lastUpdateTime (askStep pf now ob l) = lastUpdateTime ob"
  by (simp_all add: askStep_def addAsk_def split: prod.splits option.splits)

lemma foldl_bidStep_fields:
  "asks (foldl (bidStep pf now) ob ls) = asks ob \<and>
   symbol (foldl (bidStep pf now) ob ls) = symbol ob \<and>
   lastUpdateId (foldl (bidStep pf now) ob ls) = lastUpdateId ob \<and>
   lastUpdateTime (foldl (bidStep pf now) ob ls) = lastUpdateTime ob"
  by (induction ls arbitrary: ob) (simp_all add: bidStep_fields)

lemma foldl_askStep_fields:
  "bids (foldl (askStep pf now) ob ls) = bids ob \<and>
   symbol (foldl (askStep pf now) ob ls) = symbol ob \<and>
   lastUpdateId (foldl (askStep pf now) ob ls) = lastUpdateId ob \<and>
   lastUpdateTime (foldl (askStep pf now) ob ls) = lastUpdateTime ob"
  by (induction ls arbitrary: ob) (simp_all add: askStep_fields)

lemma map_of_bids_bidStep:
  "map_of (bids (bidStep pf now ob l)) p = sideAfter now (levelChanges pf [l]) (bids ob) p"
  by (auto simp: bidStep_def sideAfter_def map_of_bids_addBid wireChange_def
      sanitizePriceLevel_def new_PriceLevel_def split: prod.splits option.splits)

lemma map_of_asks_askStep:
  "map_of (asks (askStep pf now ob l)) p = sideAfter now (levelChanges pf [l]) (asks ob) p"
  by (auto simp: askStep_def sideAfter_def map_of_asks_addAsk wireChange_def
      sanitizePriceLevel_def new_PriceLevel_def split: prod.splits option.splits)

lemma levelChanges_Cons: "levelChanges pf (l # ls) = levelChanges pf [l] @ levelChanges pf ls"
  by (simp split: prod.splits option.splits)

lemma sideAfter_append:
  "map_of sd' p = sideAfter now cs sd p \<Longrightarrow>
   sideAfter now cs' sd' p = sideAfter now (cs @ cs') sd p"
  by (simp add: sideAfter_def map_add_def split: option.splits)

lemma map_of_bids_fold:
  "map_of (bids (foldl (bidStep pf now) ob ls)) p = sideAfter now (levelChanges pf ls) (bids ob) p"
proof (induction ls arbitrary: ob)
  case Nil
  show ?case by (simp add: sideAfter_def)
next
  case (Cons l ls)
  have "map_of (bids (foldl (bidStep pf now) ob (l # ls))) p =
      sideAfter now (levelChanges pf ls) (bids (bidStep pf now ob l)) p"
    using Cons.IH[of "bidStep pf now ob l"] by simp
  also have "\<dots> = sideAfter now (levelChanges pf [l] @ levelChanges pf ls) (bids ob) p"
    by (rule sideAfter_append) (rule map_of_bids_bidStep)
  finally show ?case
    using levelChanges_Cons[of pf l ls] by simp
qed

lemma map_of_asks_fold:
  "map_of (asks (foldl (askStep pf now) ob ls)) p = sideAfter now (levelChanges pf ls) (asks ob) p"
proof (induction ls arbitrary: ob)
  case Nil
  show ?case by (simp add: sideAfter_def)
next
  case (Cons l ls)
  have "map_of (asks (foldl (askStep pf now) ob (l # ls))) p =
      sideAfter now (levelChanges pf ls) (asks (askStep pf now ob l)) p"
    using Cons.IH[of "askStep pf now ob l"] by simp
  also have "\<dots> = sideAfter now (levelChanges pf [l] @ levelChanges pf ls) (asks ob) p"
    by (rule sideAfter_append) (rule map_of_asks_askStep)
  finally show ?case
    using levelChanges_Cons[of pf l ls] by simp
qed

lemma orderbooks_broadcastStep: "orderbooks (broadcastStep msg m ws) = orderbooks m"
  by (simp add: broadcastStep_def removeSubscriber_def)

lemma orderbooks_broadcast_fold: "orderbooks (foldl (broadcastStep msg) m wss) = orderbooks m"
  by (induction wss arbitrary: m) (simp_all add: orderbooks_broadcastStep)

lemma getOrderBook_broadcastUpdate:
  "getOrderBook name' (broadcastUpdate now name snap m) = getOrderBook name' m"
  by (simp add: getOrderBook_def broadcastUpdate_def orderbooks_broadcast_fold)

lemma applyDepth_arrays:
  assumes "du_b d = JArr bs" and "du_a d = JArr as"
  shows "fst (applyDepth pf now name d ob m) = Returned True \<and>
     getOrderBook name (snd (applyDepth pf now name d ob m)) =
       Some (updateLastUpdateId now (du_u d)
               (foldl (askStep pf now) (foldl (bidStep pf now) ob bs) as))"
  using assms
  by (simp add: applyDepth_def Let_def getOrderBook_broadcastUpdate)
     (simp add: getOrderBook_def storeBook_def)

lemma isValidDepthUpdate_arrays:
  "isValidDepthUpdate pf d \<Longrightarrow> \<exists>bs as. du_b d = JArr bs \<and> du_a d = JArr as"
  by (cases "du_b d"; cases "du_a d") (simp_all add: isValidDepthUpdate_def)

lemma bids_bidStep_cong:
  "bids obA = bids ob \<Longrightarrow> bids (bidStep pf now obA l) = bids (bidStep pf now ob l)"
  by (simp add: bidStep_def addBid_def split: prod.splits option.splits)

lemma asks_askStep_cong:
  "asks obA = asks ob \<Longrightarrow> asks (askStep pf now obA l) = asks (askStep pf now ob l)"
  by (simp add: askStep_def addAsk_def split: prod.splits option.splits)

lemma bids_fold_cong:
  "bids obA = bids ob \<Longrightarrow>
   bids (foldl (bidStep pf now) obA ls) = bids (foldl (bidStep pf now) ob ls)"
proof (induction ls arbitrary: obA ob)
  case Nil
  then show ?case by simp
next
  case (Cons l ls)
  from bids_bidStep_cong[OF Cons.prems]
  have "bids (bidStep pf now obA l) = bids (bidStep pf now ob l)" .
  from Cons.IH[OF this] show ?case by simp
qed

lemma asks_fold_cong:
  "asks obA = asks ob \<Longrightarrow>
   asks (foldl (askStep pf now) obA ls) = asks (foldl (askStep pf now) ob ls)"
proof (induction ls arbitrary: obA ob)
  case Nil
  then show ?case by simp
next
  case (Cons l ls)
  from asks_askStep_cong[OF Cons.prems]
  have "asks (askStep pf now obA l) = asks (askStep pf now ob l)" .
  from Cons.IH[OF this] show ?case by simp
qed

lemma applyDepth_applied:
  assumes "isValidDepthUpdate pf d"
    and "bids obA = bids ob" "asks obA = asks ob" "symbol obA = symbol ob"
  shows "fst (applyDepth pf now name d obA m) = Returned True \<and>
     (\<exists>ob'. getOrderBook name (snd (applyDepth pf now name d obA m)) = Some ob' \<and>
        applied pf now d ob ob')"
proof -
  from isValidDepthUpdate_arrays[OF assms(1)] obtain bs as
    where ar: "du_b d = JArr bs" "du_a d = JArr as" by blast
  let ?ob' = "updateLastUpdateId now (du_u d)
               (foldl (askStep pf now) (foldl (bidStep pf now) obA bs) as)"
  have b: "bids ?ob' = bids (foldl (bidStep pf now) ob bs)"
    using bids_fold_cong[OF assms(2), of pf now bs]
    by (simp add: updateLastUpdateId_def foldl_askStep_fields)
  have "asks (foldl (bidStep pf now) obA bs) = asks ob"
    by (simp add: foldl_bidStep_fields assms(3))
  from asks_fold_cong[OF this, of pf now as]
  have a: "asks ?ob' = asks (foldl (askStep pf now) ob as)"
    by (simp add: updateLastUpdateId_def)
  have mb: "map_of (bids ?ob') p = sideAfter now (levelChanges pf bs) (bids ob) p" for p
    unfolding b map_of_bids_fold ..
  have ma: "map_of (asks ?ob') p = sideAfter now (levelChanges pf as) (asks ob) p" for p
    unfolding a map_of_asks_fold ..
  have rest: "lastUpdateId ?ob' = du_u d" "lastUpdateTime ?ob' = now" "symbol ?ob' = symbol ob"
    by (simp_all add: updateLastUpdateId_def foldl_askStep_fields foldl_bidStep_fields assms(4))
  have "applied pf now d ob ?ob'"
    unfolding applied_def using ar b a mb ma rest by blast
  with applyDepth_arrays[OF ar, of pf now name obA m] show ?thesis
    by blast
qed

text \<open>
  Claim C1. For a book with last update id \<open>L > 0\<close> and a valid depth update with
  \<open>U - L \<le> 1000\<close>, \<open>updateOrderBook\<close> returns true exactly when \<open>U \<le> L + 1\<close> and
  \<open>u \<ge> L + 1\<close>, and then the book holds the changes of the update and the last update id
  \<open>u\<close>. Otherwise it returns false and the manager is as it was: the book with both
  sides, its id and its time, the subscribers, and what has been sent.
\<close>

theorem sequence_checked_update:
  assumes "getOrderBook name m = Some ob"
    and "0 < lastUpdateId ob"
    and "isValidDepthUpdate pf d"
    and "du_U d - lastUpdateId ob \<le> 1000"
    and "r = updateOrderBook pf now name d m"
  shows
  "(fst r = Returned True \<longleftrightarrow>
      du_U d \<le> lastUpdateId ob + 1 \<and> lastUpdateId ob + 1 \<le> du_u d) \<and>
   (du_U d \<le> lastUpdateId ob + 1 \<and> lastUpdateId ob + 1 \<le> du_u d \<longrightarrow>
      (\<exists>ob'. getOrderBook name (snd r) = Some ob' \<and> applied pf now d ob ob')) \<and>
   (\<not> (du_U d \<le> lastUpdateId ob + 1 \<and> lastUpdateId ob + 1 \<le> du_u d) \<longrightarrow>
      r = (Returned False, m))"
proof (cases "du_U d \<le> lastUpdateId ob + 1 \<and> lastUpdateId ob + 1 \<le> du_u d")
  case True
  then have r: "r = applyDepth pf now name d ob m"
    using assms(1,2,4,5) by (simp add: updateOrderBook_def validateSequenceNumber_def)
  from applyDepth_applied[where obA = ob and ob = ob and m = m and now = now and name = name, OF assms(3) refl refl refl] True r
  show ?thesis by simp
next
  case False
  then have "r = (Returned False, m)"
    using assms(1,2,4,5) by (simp add: updateOrderBook_def validateSequenceNumber_def)
  with False show ?thesis by auto
qed

text \<open>
  Claim C2. When the book of the symbol (a fresh one if the manager has none) has last
  update id 0, or a last update id \<open>L > 0\<close> with \<open>U - L > 1000\<close>, \<open>updateOrderBook\<close>
  accepts a valid depth update without looking at its sequence: it returns true, and the
  book holds every change that passes \<open>isValidPriceLevel\<close> and the last update id \<open>u\<close>.
\<close>

theorem unconditional_update:
  assumes "isValidDepthUpdate pf d"
    and "ob = (case getOrderBook name m of None \<Rightarrow> new_OrderBook now name | Some b \<Rightarrow> b)"
    and "lastUpdateId ob = 0 \<or> (0 < lastUpdateId ob \<and> 1000 < du_U d - lastUpdateId ob)"
    and "r = updateOrderBook pf now name d m"
  shows
  "fst r = Returned True \<and>
   (\<exists>ob'. getOrderBook name (snd r) = Some ob' \<and> applied pf now d ob ob')"
proof -
  obtain m0 where m0:
    "(case getOrderBook name m of None \<Rightarrow> createOrderBook now name m | Some b \<Rightarrow> (b, m)) = (ob, m0)"
    using assms(2) by (cases "getOrderBook name m") (simp_all add: createOrderBook_def Let_def)
  have r: "r = applyDepth pf now name d (updateLastUpdateId now (du_u d) ob) m0"
    using assms(3,4) m0 by (auto simp add: updateOrderBook_def)
  have f: "bids (updateLastUpdateId now (du_u d) ob) = bids ob"
    "asks (updateLastUpdateId now (du_u d) ob) = asks ob"
    "symbol (updateLastUpdateId now (du_u d) ob) = symbol ob"
    by (simp_all add: updateLastUpdateId_def)
  from applyDepth_applied[where m = m0 and now = now and name = name, OF assms(1) f] r
  show ?thesis by simp
qed

lemma example_levels_valid:
  "isValidPriceLevel exampleParseFloat (JArr [JStr ''99'', JStr ''0''])"
  "isValidPriceLevel exampleParseFloat (JArr [JStr ''100'', JStr ''1.5''])"
  "isValidPriceLevel exampleParseFloat (JArr [JStr ''98'', JStr ''0''])"
  "isValidPriceLevel exampleParseFloat (JArr [JStr ''99'', JStr ''2''])"
  "isValidPriceLevel exampleParseFloat (JArr [JStr ''100'', JStr ''0''])"
  "isValidPriceLevel exampleParseFloat (JArr [JStr ''100'', JStr ''1''])"
  "isValidPriceLevel exampleParseFloat (JArr [JStr ''100'', JStr ''2''])"
  "isValidPriceLevel exampleParseFloat (JArr [JStr ''101'', JStr ''1''])"
  by (simp_all add: isValidPriceLevel_def exampleParseFloat_def gt0_def ge0_def)

lemma example_diffs_valid:
  "isValidDepthUpdate exampleParseFloat diff101_105"
  "isValidDepthUpdate exampleParseFloat diff103_104"
  "isValidDepthUpdate exampleParseFloat diff5000_5010"
  by (simp_all add: isValidDepthUpdate_def diff101_105_def diff103_104_def diff5000_5010_def
      example_levels_valid)

lemma manager100_book: "getOrderBook ''btcusdt'' manager100 = Some book100"
  by (simp add: getOrderBook_def manager100_def)

lemma book100_id: "lastUpdateId book100 = 100"
  by (simp add: book100_def updateLastUpdateId_def)

lemma book100_sides:
  "bids book100 =
     [(98, \<lparr>price = 98, quantity = 2, count = 1, timestamp = 1\<rparr>),
      (97, \<lparr>price = 97, quantity = 5, count = 1, timestamp = 2\<rparr>),
      (99, \<lparr>price = 99, quantity = 1, count = 1, timestamp = 3\<rparr>)]"
  "asks book100 =
     [(101, \<lparr>price = 101, quantity = 3, count = 1, timestamp = 4\<rparr>),
      (100, \<lparr>price = 100, quantity = 2, count = 1, timestamp = 5\<rparr>),
      (102, \<lparr>price = 102, quantity = 10, count = 1, timestamp = 6\<rparr>)]"
  by (simp_all add: book100_def updateLastUpdateId_def ladderBook_def addAsk_def addBid_def
      new_OrderBook_def new_PriceLevel_def)

lemma example_diff_changes:
  "levelChanges exampleParseFloat [JArr [JStr ''99'', JStr ''0'']] = [(99, 0)]"
  "levelChanges exampleParseFloat [JArr [JStr ''100'', JStr ''1.5'']] = [(100, 3 / 2)]"
  "levelChanges exampleParseFloat [JArr [JStr ''99'', JStr ''2'']] = [(99, 2)]"
  by (simp_all add: example_levels_valid wireChange_def exampleParseFloat_def)

lemma pairs_of_bids:
  "bids ob' = sd \<Longrightarrow>
   map (\<lambda>l. (price l, quantity l)) (getBids None ob') =
     map (\<lambda>l. (price l, quantity l)) (sort_key (\<lambda>l. - price l) (map snd sd))"
  by (simp add: getBids_def sortedBids_def)

lemma pairs_of_asks:
  "asks ob' = sd \<Longrightarrow>
   map (\<lambda>l. (price l, quantity l)) (getAsks None ob') =
     map (\<lambda>l. (price l, quantity l)) (sort_key price (map snd sd))"
  by (simp add: getAsks_def sortedAsks_def)

lemma book100_fold_99_0:
  "bids (foldl (bidStep exampleParseFloat 9) book100 [JArr [JStr ''99'', JStr ''0'']]) =
     [(98, \<lparr>price = 98, quantity = 2, count = 1, timestamp = 1\<rparr>),
      (97, \<lparr>price = 97, quantity = 5, count = 1, timestamp = 2\<rparr>)]"
  by (simp add: bidStep_def example_levels_valid sanitizePriceLevel_def exampleParseFloat_def
      addBid_def book100_sides)

lemma book100_fold_100_15:
  "asks (foldl (askStep exampleParseFloat 9) book100 [JArr [JStr ''100'', JStr ''1.5'']]) =
     [(101, \<lparr>price = 101, quantity = 3, count = 1, timestamp = 4\<rparr>),
      (100, \<lparr>price = 100, quantity = 3 / 2, count = 1, timestamp = 9\<rparr>),
      (102, \<lparr>price = 102, quantity = 10, count = 1, timestamp = 6\<rparr>)]"
  by (simp add: askStep_def example_levels_valid sanitizePriceLevel_def exampleParseFloat_def
      addAsk_def book100_sides new_PriceLevel_def)

lemma book100_fold_99_2:
  "bids (foldl (bidStep exampleParseFloat 9) book100 [JArr [JStr ''99'', JStr ''2'']]) =
     [(98, \<lparr>price = 98, quantity = 2, count = 1, timestamp = 1\<rparr>),
      (97, \<lparr>price = 97, quantity = 5, count = 1, timestamp = 2\<rparr>),
      (99, \<lparr>price = 99, quantity = 2, count = 1, timestamp = 9\<rparr>)]"
  by (simp add: bidStep_def example_levels_valid sanitizePriceLevel_def exampleParseFloat_def
      addBid_def book100_sides new_PriceLevel_def)

theorem sequence_checked_update_witness:
  "getOrderBook ''btcusdt'' manager100 = Some book100 \<and>
   0 < lastUpdateId book100 \<and>
   isValidDepthUpdate exampleParseFloat diff101_105 \<and>
   du_U diff101_105 - lastUpdateId book100 \<le> 1000 \<and>
   map (\<lambda>l. (price l, quantity l)) (getBids None book100) = [(99, 1), (98, 2), (97, 5)] \<and>
   map (\<lambda>l. (price l, quantity l)) (getAsks None book100) = [(100, 2), (101, 3), (102, 10)] \<and>
   fst (updateOrderBook exampleParseFloat 9 ''btcusdt'' diff101_105 manager100) = Returned True \<and>
   map_option lastUpdateId
     (getOrderBook ''btcusdt''
        (snd (updateOrderBook exampleParseFloat 9 ''btcusdt'' diff101_105 manager100))) = Some 105 \<and>
   map_option (\<lambda>ob. map (\<lambda>l. (price l, quantity l)) (getBids None ob))
     (getOrderBook ''btcusdt''
        (snd (updateOrderBook exampleParseFloat 9 ''btcusdt'' diff101_105 manager100))) =
     Some [(98, 2), (97, 5)] \<and>
   map_option (\<lambda>ob. map (\<lambda>l. (price l, quantity l)) (getAsks None ob))
     (getOrderBook ''btcusdt''
        (snd (updateOrderBook exampleParseFloat 9 ''btcusdt'' diff101_105 manager100))) =
     Some [(100, 3 / 2), (101, 3), (102, 10)] \<and>
   map_option (\<lambda>ob. map_of (bids ob) 99)
     (getOrderBook ''btcusdt''
        (snd (updateOrderBook exampleParseFloat 9 ''btcusdt'' diff101_105 manager100))) =
     Some None \<and>
   map_option (\<lambda>ob. map_of (asks ob) 100)
     (getOrderBook ''btcusdt''
        (snd (updateOrderBook exampleParseFloat 9 ''btcusdt'' diff101_105 manager100))) =
     Some (Some \<lparr>price = 100, quantity = 3 / 2, count = 1, timestamp = 9\<rparr>) \<and>
   isValidDepthUpdate exampleParseFloat diff103_104 \<and>
   updateOrderBook exampleParseFloat 10 ''btcusdt'' diff103_104
     (snd (updateOrderBook exampleParseFloat 9 ''btcusdt'' diff101_105 manager100)) =
   (Returned False, snd (updateOrderBook exampleParseFloat 9 ''btcusdt'' diff101_105 manager100))"
proof -
  let ?r = "updateOrderBook exampleParseFloat 9 ''btcusdt'' diff101_105 manager100"
  have h2: "0 < lastUpdateId book100"
    by (simp add: book100_id)
  have h4: "du_U diff101_105 - lastUpdateId book100 \<le> 1000"
    by (simp add: book100_id diff101_105_def)
  note t = sequence_checked_update[OF manager100_book h2 example_diffs_valid(1) h4 refl, of 9]
  have c: "du_U diff101_105 \<le> lastUpdateId book100 + 1 \<and> lastUpdateId book100 + 1 \<le> du_u diff101_105"
    by (simp add: book100_id diff101_105_def)
  from t c have ok: "fst ?r = Returned True"
    by blast
  from t c obtain ob' where ob': "getOrderBook ''btcusdt'' (snd ?r) = Some ob'"
    "applied exampleParseFloat 9 diff101_105 book100 ob'"
    by blast
  from ob'(2) have id: "lastUpdateId ob' = 105"
    by (auto simp add: applied_def diff101_105_def)
  from ob'(2) have sb: "bids ob' =
      bids (foldl (bidStep exampleParseFloat 9) book100 [JArr [JStr ''99'', JStr ''0'']])"
    and sa: "asks ob' =
      asks (foldl (askStep exampleParseFloat 9) book100 [JArr [JStr ''100'', JStr ''1.5'']])"
    and mb: "map_of (bids ob') 99 =
      sideAfter 9 (levelChanges exampleParseFloat [JArr [JStr ''99'', JStr ''0'']]) (bids book100) 99"
    and ma: "map_of (asks ob') 100 =
      sideAfter 9 (levelChanges exampleParseFloat [JArr [JStr ''100'', JStr ''1.5'']])
        (asks book100) 100"
    by (auto simp add: applied_def diff101_105_def)
  from mb[unfolded example_diff_changes] have m99: "map_of (bids ob') 99 = None"
    by (simp add: sideAfter_def)
  from ma[unfolded example_diff_changes] have m100: "map_of (asks ob') 100 =
      Some \<lparr>price = 100, quantity = 3 / 2, count = 1, timestamp = 9\<rparr>"
    by (simp add: sideAfter_def)
  have gb: "map (\<lambda>l. (price l, quantity l)) (getBids None ob') = [(98, 2), (97, 5)]"
    using pairs_of_bids[OF sb[unfolded book100_fold_99_0]] by simp
  have ga: "map (\<lambda>l. (price l, quantity l)) (getAsks None ob') = [(100, 3 / 2), (101, 3), (102, 10)]"
    using pairs_of_asks[OF sa[unfolded book100_fold_100_15]] by simp
  have before: "map (\<lambda>l. (price l, quantity l)) (getBids None book100) = [(99, 1), (98, 2), (97, 5)]"
    "map (\<lambda>l. (price l, quantity l)) (getAsks None book100) = [(100, 2), (101, 3), (102, 10)]"
    using pairs_of_bids[OF book100_sides(1)] pairs_of_asks[OF book100_sides(2)] by simp_all
  have g2: "0 < lastUpdateId ob'" using id by simp
  have g4: "du_U diff103_104 - lastUpdateId ob' \<le> 1000"
    by (simp add: id diff103_104_def)
  have nc: "\<not> (du_U diff103_104 \<le> lastUpdateId ob' + 1 \<and> lastUpdateId ob' + 1 \<le> du_u diff103_104)"
    by (simp add: id diff103_104_def)
  from sequence_checked_update[OF ob'(1) g2 example_diffs_valid(2) g4 refl, of 10] nc
  have rej: "updateOrderBook exampleParseFloat 10 ''btcusdt'' diff103_104 (snd ?r) =
      (Returned False, snd ?r)"
    by blast
  from manager100_book h2 h4 example_diffs_valid before ok ob'(1) id gb ga m99 m100 rej
  show ?thesis
    by simp
qed

theorem unconditional_update_witness:
  "isValidDepthUpdate exampleParseFloat diff5000_5010 \<and>
   getOrderBook ''btcusdt'' manager100 = Some book100 \<and>
   0 < lastUpdateId book100 \<and>
   1000 < du_U diff5000_5010 - lastUpdateId book100 \<and>
   map (\<lambda>l. (price l, quantity l)) (getBids None book100) = [(99, 1), (98, 2), (97, 5)] \<and>
   fst (updateOrderBook exampleParseFloat 9 ''btcusdt'' diff5000_5010 manager100) = Returned True \<and>
   map_option lastUpdateId
     (getOrderBook ''btcusdt''
        (snd (updateOrderBook exampleParseFloat 9 ''btcusdt'' diff5000_5010 manager100))) = Some 5010 \<and>
   map_option (\<lambda>ob. map (\<lambda>l. (price l, quantity l)) (getBids None ob))
     (getOrderBook ''btcusdt''
        (snd (updateOrderBook exampleParseFloat 9 ''btcusdt'' diff5000_5010 manager100))) =
     Some [(99, 2), (98, 2), (97, 5)] \<and>
   map_option (\<lambda>ob. map_of (bids ob) 99)
     (getOrderBook ''btcusdt''
        (snd (updateOrderBook exampleParseFloat 9 ''btcusdt'' diff5000_5010 manager100))) =
     Some (Some \<lparr>price = 99, quantity = 2, count = 1, timestamp = 9\<rparr>) \<and>
   getOrderBook ''btcusdt'' emptyManager = None \<and>
   lastUpdateId (new_OrderBook 9 ''btcusdt'') = 0 \<and>
   fst (updateOrderBook exampleParseFloat 9 ''btcusdt'' diff101_105 emptyManager) = Returned True \<and>
   map_option lastUpdateId
     (getOrderBook ''btcusdt''
        (snd (updateOrderBook exampleParseFloat 9 ''btcusdt'' diff101_105 emptyManager))) = Some 105 \<and>
   map_option (\<lambda>ob. (map_of (bids ob) 99, map_of (asks ob) 100))
     (getOrderBook ''btcusdt''
        (snd (updateOrderBook exampleParseFloat 9 ''btcusdt'' diff101_105 emptyManager))) =
     Some (None, Some \<lparr>price = 100, quantity = 3 / 2, count = 1, timestamp = 9\<rparr>)"
proof -
  let ?r = "updateOrderBook exampleParseFloat 9 ''btcusdt'' diff5000_5010 manager100"
  let ?s = "updateOrderBook exampleParseFloat 9 ''btcusdt'' diff101_105 emptyManager"
  have b: "book100 = (case getOrderBook ''btcusdt'' manager100 of
      None \<Rightarrow> new_OrderBook 9 ''btcusdt'' | Some b \<Rightarrow> b)"
    by (simp add: manager100_book)
  have g: "0 < lastUpdateId book100" "1000 < du_U diff5000_5010 - lastUpdateId book100"
    by (simp_all add: book100_id diff5000_5010_def)
  then have h: "lastUpdateId book100 = 0 \<or>
      (0 < lastUpdateId book100 \<and> 1000 < du_U diff5000_5010 - lastUpdateId book100)"
    by simp
  from unconditional_update[OF example_diffs_valid(3) b h refl]
  obtain ob' where ob': "fst ?r = Returned True" "getOrderBook ''btcusdt'' (snd ?r) = Some ob'"
    "applied exampleParseFloat 9 diff5000_5010 book100 ob'"
    by blast
  from ob'(3) have id: "lastUpdateId ob' = 5010"
    by (auto simp add: applied_def diff5000_5010_def)
  from ob'(3) have sb: "bids ob' =
      bids (foldl (bidStep exampleParseFloat 9) book100 [JArr [JStr ''99'', JStr ''2'']])"
    and mb: "map_of (bids ob') 99 =
      sideAfter 9 (levelChanges exampleParseFloat [JArr [JStr ''99'', JStr ''2'']]) (bids book100) 99"
    by (auto simp add: applied_def diff5000_5010_def)
  from mb[unfolded example_diff_changes] have m99: "map_of (bids ob') 99 =
      Some \<lparr>price = 99, quantity = 2, count = 1, timestamp = 9\<rparr>"
    by (simp add: sideAfter_def)
  have gb: "map (\<lambda>l. (price l, quantity l)) (getBids None ob') = [(99, 2), (98, 2), (97, 5)]"
    using pairs_of_bids[OF sb[unfolded book100_fold_99_2]] by simp
  have before: "map (\<lambda>l. (price l, quantity l)) (getBids None book100) = [(99, 1), (98, 2), (97, 5)]"
    using pairs_of_bids[OF book100_sides(1)] by simp
  have e: "getOrderBook ''btcusdt'' emptyManager = None"
    by (simp add: getOrderBook_def emptyManager_def)
  then have n: "new_OrderBook 9 ''btcusdt'' = (case getOrderBook ''btcusdt'' emptyManager of
      None \<Rightarrow> new_OrderBook 9 ''btcusdt'' | Some b \<Rightarrow> b)"
    by simp
  have z: "lastUpdateId (new_OrderBook 9 ''btcusdt'') = 0"
    by (simp add: new_OrderBook_def)
  then have hz: "lastUpdateId (new_OrderBook 9 ''btcusdt'') = 0 \<or>
      (0 < lastUpdateId (new_OrderBook 9 ''btcusdt'') \<and>
       1000 < du_U diff101_105 - lastUpdateId (new_OrderBook 9 ''btcusdt''))"
    by simp
  from unconditional_update[OF example_diffs_valid(1) n hz refl]
  obtain ob2 where ob2: "fst ?s = Returned True" "getOrderBook ''btcusdt'' (snd ?s) = Some ob2"
    "applied exampleParseFloat 9 diff101_105 (new_OrderBook 9 ''btcusdt'') ob2"
    by blast
  from ob2(3) have id2: "lastUpdateId ob2 = 105"
    by (auto simp add: applied_def diff101_105_def)
  from ob2(3) have m2a: "map_of (bids ob2) 99 =
      sideAfter 9 (levelChanges exampleParseFloat [JArr [JStr ''99'', JStr ''0'']])
        (bids (new_OrderBook 9 ''btcusdt'')) 99"
    and m2b: "map_of (asks ob2) 100 =
      sideAfter 9 (levelChanges exampleParseFloat [JArr [JStr ''100'', JStr ''1.5'']])
        (asks (new_OrderBook 9 ''btcusdt'')) 100"
    by (auto simp add: applied_def diff101_105_def)
  from m2a[unfolded example_diff_changes] m2b[unfolded example_diff_changes]
  have m2: "map_of (bids ob2) 99 = None"
    "map_of (asks ob2) 100 = Some \<lparr>price = 100, quantity = 3 / 2, count = 1, timestamp = 9\<rparr>"
    by (simp_all add: sideAfter_def)
  from example_diffs_valid(3) manager100_book g before ob'(1,2) id gb m99 e z ob2(1,2) id2 m2
  show ?thesis
    by simp
qed

lemma every_iff: "every f v \<longleftrightarrow> (\<exists>xs. v = JArr xs \<and> (\<forall>x\<in>set xs. f x))"
  by (cases v) (simp_all add: list_all_iff)

lemma isValidPriceLevel_iff:
  "isValidPriceLevel pf l \<longleftrightarrow>
     truthy l \<and>
     (\<exists>s0 s1 p q. js_index l 0 = JStr s0 \<and> js_index l 1 = JStr s1 \<and>
        pf (JStr s0) = Some p \<and> pf (JStr s1) = Some q \<and> 0 < p \<and> 0 \<le> q)"
proof -
  have ts: "typeof_string v \<longleftrightarrow> (\<exists>s. v = JStr s)" for v
    by (cases v) simp_all
  show ?thesis
    unfolding isValidPriceLevel_def ts
    by (auto simp: gt0_def ge0_def split: option.splits)
qed

text \<open>
  Claim C9, as amended. \<open>isValidSnapshot\<close> accepts a message exactly when its
  \<open>lastUpdateId\<close> is truthy (for a number: not 0; a negative id passes) and its \<open>bids\<close>
  and \<open>asks\<close> are arrays of which every element passes \<open>isValidPriceLevel\<close>: price and
  quantity are strings, the price parses to a number above 0 and the quantity to a number
  that is not negative.
\<close>

theorem snapshot_validity:
  "(isValidSnapshot pf d \<longleftrightarrow>
      sn_lastUpdateId d \<noteq> 0 \<and>
      (\<exists>bs as. sn_bids d = JArr bs \<and> sn_asks d = JArr as \<and>
         (\<forall>l\<in>set bs. isValidPriceLevel pf l) \<and> (\<forall>l\<in>set as. isValidPriceLevel pf l))) \<and>
   (isValidPriceLevel pf l \<longleftrightarrow>
      truthy l \<and>
      (\<exists>s0 s1 p q. js_index l 0 = JStr s0 \<and> js_index l 1 = JStr s1 \<and>
         pf (JStr s0) = Some p \<and> pf (JStr s1) = Some q \<and> 0 < p \<and> 0 \<le> q))"
proof -
  have "isValidSnapshot pf d \<longleftrightarrow>
      sn_lastUpdateId d \<noteq> 0 \<and>
      (\<exists>bs as. sn_bids d = JArr bs \<and> sn_asks d = JArr as \<and>
         (\<forall>l\<in>set bs. isValidPriceLevel pf l) \<and> (\<forall>l\<in>set as. isValidPriceLevel pf l))"
    unfolding isValidSnapshot_def every_iff
    by (cases "sn_bids d"; cases "sn_asks d") auto
  with isValidPriceLevel_iff show ?thesis by blast
qed

text \<open>
  Claim C9 as stated asks for a last update id above 0: a snapshot with the id \<open>-1\<close> is
  accepted.
\<close>

theorem snapshot_validity_counterexample:
  "isValidSnapshot exampleParseFloat snapshotNegativeId \<and>
   \<not> 0 < sn_lastUpdateId snapshotNegativeId"
  by (simp add: isValidSnapshot_def snapshotNegativeId_def example_levels_valid)

theorem snapshot_validity_witness:
  "isValidSnapshot exampleParseFloat snapshotPlain \<and>
   sn_lastUpdateId snapshotPlain = 10 \<and>
   isValidPriceLevel exampleParseFloat (JArr [JStr ''99'', JStr ''2'']) \<and>
   exampleParseFloat (JStr ''99'') = Some 99 \<and>
   \<not> isValidSnapshot exampleParseFloat (snapshotPlain\<lparr>sn_lastUpdateId := 0\<rparr>) \<and>
   \<not> isValidSnapshot exampleParseFloat (snapshotPlain\<lparr>sn_bids := JNull\<rparr>) \<and>
   \<not> isValidSnapshot exampleParseFloat (snapshotPlain\<lparr>sn_bids := JArr [JArr [JStr ''0'', JStr ''2'']]\<rparr>)"
proof -
  have p: "exampleParseFloat (JStr ''99'') = Some 99" "exampleParseFloat (JStr ''0'') = Some 0"
    by (simp_all add: exampleParseFloat_def)
  have v: "isValidPriceLevel exampleParseFloat (JArr [JStr ''99'', JStr ''2''])"
    using snapshot_validity[of exampleParseFloat snapshotPlain "JArr [JStr ''99'', JStr ''2'']"]
    by (simp add: exampleParseFloat_def)
  have nv: "\<not> isValidPriceLevel exampleParseFloat (JArr [JStr ''0'', JStr ''2''])"
    using snapshot_validity[of exampleParseFloat snapshotPlain "JArr [JStr ''0'', JStr ''2'']"]
    by (simp add: exampleParseFloat_def)
  have 1: "isValidSnapshot exampleParseFloat snapshotPlain"
    using snapshot_validity[of exampleParseFloat snapshotPlain JNull]
    by (simp add: snapshotPlain_def example_levels_valid)
  have 2: "\<not> isValidSnapshot exampleParseFloat (snapshotPlain\<lparr>sn_lastUpdateId := 0\<rparr>)"
    using snapshot_validity[of exampleParseFloat "snapshotPlain\<lparr>sn_lastUpdateId := 0\<rparr>" JNull]
    by simp
  have 3: "\<not> isValidSnapshot exampleParseFloat (snapshotPlain\<lparr>sn_bids := JNull\<rparr>)"
    using snapshot_validity[of exampleParseFloat "snapshotPlain\<lparr>sn_bids := JNull\<rparr>" JNull]
    by simp
  have 4: "\<not> isValidSnapshot exampleParseFloat
      (snapshotPlain\<lparr>sn_bids := JArr [JArr [JStr ''0'', JStr ''2'']]\<rparr>)"
    using snapshot_validity[of exampleParseFloat
        "snapshotPlain\<lparr>sn_bids := JArr [JArr [JStr ''0'', JStr ''2'']]\<rparr>" JNull] nv
    by simp
  have "sn_lastUpdateId snapshotPlain = 10"
    by (simp add: snapshotPlain_def)
  with 1 2 3 4 v p show ?thesis by simp
qed

lemma distinct_bidStep:
  "distinct (map fst (bids ob)) \<Longrightarrow> distinct (map fst (bids (bidStep pf now ob l)))"
  by (simp add: bidStep_def addBid_def distinct_update distinct_delete
      split: prod.splits option.splits)

lemma distinct_askStep:
  "distinct (map fst (asks ob)) \<Longrightarrow> distinct (map fst (asks (askStep pf now ob l)))"
  by (simp add: askStep_def addAsk_def distinct_update distinct_delete
      split: prod.splits option.splits)

lemma distinct_bids_fold:
  "distinct (map fst (bids ob)) \<Longrightarrow> distinct (map fst (bids (foldl (bidStep pf now) ob ls)))"
  by (induction ls arbitrary: ob) (simp_all add: distinct_bidStep)

lemma distinct_asks_fold:
  "distinct (map fst (asks ob)) \<Longrightarrow> distinct (map fst (asks (foldl (askStep pf now) ob ls)))"
  by (induction ls arbitrary: ob) (simp_all add: distinct_askStep)

lemma pairs_of_side:
  assumes d: "distinct (map fst sd)"
    and m: "\<And>p. map_of sd p = sideAfter now cs [] p"
  shows "(\<lambda>l. (price l, quantity l)) ` snd ` set sd = lastPositive cs"
proof (rule set_eqI)
  fix x :: "real \<times> real"
  obtain p q where x: "x = (p, q)" by (cases x)
  show "x \<in> (\<lambda>l. (price l, quantity l)) ` snd ` set sd \<longleftrightarrow> x \<in> lastPositive cs"
  proof
    assume "x \<in> (\<lambda>l. (price l, quantity l)) ` snd ` set sd"
    then obtain k l where kl: "(k, l) \<in> set sd" "x = (price l, quantity l)"
      by auto
    with d have "map_of sd k = Some l" by simp
    with m have "sideAfter now cs [] k = Some l" by simp
    then obtain q' where q': "map_of (rev cs) k = Some q'" "0 < q'"
      "l = \<lparr>price = k, quantity = q', count = 1, timestamp = now\<rparr>"
      by (auto simp: sideAfter_def split: option.splits if_splits)
    with kl(2) show "x \<in> lastPositive cs"
      by (simp add: lastPositive_def)
  next
    assume "x \<in> lastPositive cs"
    with x have "map_of (rev cs) p = Some q" "0 < q"
      by (simp_all add: lastPositive_def)
    then have "sideAfter now cs [] p =
        Some \<lparr>price = p, quantity = q, count = 1, timestamp = now\<rparr>"
      by (simp add: sideAfter_def)
    with m have "map_of sd p = Some \<lparr>price = p, quantity = q, count = 1, timestamp = now\<rparr>"
      by simp
    then have "(p, \<lparr>price = p, quantity = q, count = 1, timestamp = now\<rparr>) \<in> set sd"
      by (rule map_of_SomeD)
    then have "(price \<lparr>price = p, quantity = q, count = 1, timestamp = now\<rparr>,
        quantity \<lparr>price = p, quantity = q, count = 1, timestamp = now\<rparr>)
        \<in> (\<lambda>l. (price l, quantity l)) ` snd ` set sd"
      by force
    with x show "x \<in> (\<lambda>l. (price l, quantity l)) ` snd ` set sd"
      by simp
  qed
qed

lemma lastPositive_distinct:
  assumes "distinct (map fst cs)" and "\<forall>(p, q)\<in>set cs. 0 < q"
  shows "lastPositive cs = set cs"
proof -
  have d: "distinct (map fst (rev cs))"
    using assms(1) by (simp add: rev_map[symmetric])
  have "map_of (rev cs) p = Some q \<longleftrightarrow> (p, q) \<in> set cs" for p q
    using map_of_eq_Some_iff[OF d, of p q] by simp
  with assms(2) show ?thesis
    by (auto simp: lastPositive_def)
qed

lemma levelChanges_all_valid:
  "\<forall>l\<in>set ls. isValidPriceLevel pf l \<Longrightarrow> length (levelChanges pf ls) = length ls"
proof (induction ls)
  case Nil
  show ?case by simp
next
  case (Cons l ls)
  then have "isValidPriceLevel pf l" by simp
  from isValidPriceLevel_parsed[OF this] obtain p q
    where "sanitizePriceLevel pf l = (Some p, Some q)" by blast
  then have "wireChange pf l = Some (p, q)"
    by (simp add: wireChange_def sanitizePriceLevel_def)
  with Cons show ?case by simp
qed

lemma setSnapshot_valid:
  assumes "isValidSnapshot pf d" and "sn_bids d = JArr bs" and "sn_asks d = JArr as"
  shows "\<exists>ob. fst (setSnapshot pf now name d m) = Returned True \<and>
     getOrderBook name (snd (setSnapshot pf now name d m)) =
       Some (updateLastUpdateId now (sn_lastUpdateId d)
         (foldl (askStep pf now) (foldl (bidStep pf now) (clear now ob) bs) as))"
  using assms
  by (cases "getOrderBook name m")
     (auto simp add: setSnapshot_def Let_def getOrderBook_def storeBook_def createOrderBook_def)

text \<open>
  Claim C8, as amended. For a snapshot that \<open>isValidSnapshot\<close> accepts, \<open>setSnapshot\<close>
  returns true and \<open>getSnapshot()\<close> of the book has the last update id of the snapshot;
  its bids (asks) are, as a set of (price, quantity) pairs, the entries of the snapshot's
  bids (asks) that are the last one of their price and have a positive quantity. They are
  all the entries of the snapshot when its prices are distinct on the side and its
  quantities are positive.
\<close>

theorem snapshot_round_trip:
  assumes "isValidSnapshot pf d"
    and "r = setSnapshot pf now name d m"
  shows
  "fst r = Returned True \<and>
   (\<exists>ob' bs as.
      sn_bids d = JArr bs \<and> sn_asks d = JArr as \<and>
      length (levelChanges pf bs) = length bs \<and>
      length (levelChanges pf as) = length as \<and>
      getOrderBook name (snd r) = Some ob' \<and>
      ss_lastUpdateId (getSnapshot None ob') = sn_lastUpdateId d \<and>
      levelPairs (ss_bids (getSnapshot None ob')) = lastPositive (levelChanges pf bs) \<and>
      levelPairs (ss_asks (getSnapshot None ob')) = lastPositive (levelChanges pf as) \<and>
      (distinct (map fst (levelChanges pf bs)) \<and> (\<forall>(p, q)\<in>set (levelChanges pf bs). 0 < q) \<longrightarrow>
         levelPairs (ss_bids (getSnapshot None ob')) = set (levelChanges pf bs)) \<and>
      (distinct (map fst (levelChanges pf as)) \<and> (\<forall>(p, q)\<in>set (levelChanges pf as). 0 < q) \<longrightarrow>
         levelPairs (ss_asks (getSnapshot None ob')) = set (levelChanges pf as)))"
proof -
  from assms(1) obtain bs as where ar: "sn_bids d = JArr bs" "sn_asks d = JArr as"
    and vb: "\<forall>l\<in>set bs. isValidPriceLevel pf l" and va: "\<forall>l\<in>set as. isValidPriceLevel pf l"
    unfolding isValidSnapshot_def every_iff by auto
  from setSnapshot_valid[OF assms(1) ar, of now name m] obtain ob where
    ok: "fst r = Returned True" and
    g: "getOrderBook name (snd r) =
       Some (updateLastUpdateId now (sn_lastUpdateId d)
         (foldl (askStep pf now) (foldl (bidStep pf now) (clear now ob) bs) as))"
    unfolding assms(2) by blast
  let ?b = "foldl (bidStep pf now) (clear now ob) bs"
  let ?ob' = "updateLastUpdateId now (sn_lastUpdateId d) (foldl (askStep pf now) ?b as)"
  have e: "bids (clear now ob) = []" "asks (clear now ob) = []"
    by (simp_all add: clear_def)
  have b: "bids ?ob' = bids ?b"
    by (simp add: updateLastUpdateId_def foldl_askStep_fields)
  have a: "asks ?ob' = asks (foldl (askStep pf now) ?b as)"
    by (simp add: updateLastUpdateId_def)
  have ab: "asks ?b = []"
    by (simp add: foldl_bidStep_fields e)
  have db: "distinct (map fst (bids ?ob'))"
    unfolding b by (rule distinct_bids_fold) (simp add: e)
  have da: "distinct (map fst (asks ?ob'))"
    unfolding a by (rule distinct_asks_fold) (simp add: ab)
  have mb: "map_of (bids ?ob') p = sideAfter now (levelChanges pf bs) [] p" for p
    unfolding b map_of_bids_fold by (simp add: e)
  have ma: "map_of (asks ?ob') p = sideAfter now (levelChanges pf as) [] p" for p
    unfolding a map_of_asks_fold by (simp add: ab)
  have pb: "levelPairs (ss_bids (getSnapshot None ?ob')) = lastPositive (levelChanges pf bs)"
    using pairs_of_side[OF db mb]
    by (simp add: levelPairs_def getSnapshot_def getBids_def sortedBids_def)
  have pa: "levelPairs (ss_asks (getSnapshot None ?ob')) = lastPositive (levelChanges pf as)"
    using pairs_of_side[OF da ma]
    by (simp add: levelPairs_def getSnapshot_def getAsks_def sortedAsks_def)
  have id: "ss_lastUpdateId (getSnapshot None ?ob') = sn_lastUpdateId d"
    by (simp add: getSnapshot_def updateLastUpdateId_def)
  have cb: "levelPairs (ss_bids (getSnapshot None ?ob')) = set (levelChanges pf bs)"
    if "distinct (map fst (levelChanges pf bs)) \<and> (\<forall>(p, q)\<in>set (levelChanges pf bs). 0 < q)"
    using that pb lastPositive_distinct by simp
  have ca: "levelPairs (ss_asks (getSnapshot None ?ob')) = set (levelChanges pf as)"
    if "distinct (map fst (levelChanges pf as)) \<and> (\<forall>(p, q)\<in>set (levelChanges pf as). 0 < q)"
    using that pa lastPositive_distinct by simp
  from ok ar g id pb pa cb ca levelChanges_all_valid[OF vb] levelChanges_all_valid[OF va]
  show ?thesis by blast
qed

lemma example_changes:
  "levelChanges exampleParseFloat [JArr [JStr ''100'', JStr ''0'']] = [(100, 0)]"
  "levelChanges exampleParseFloat [JArr [JStr ''99'', JStr ''2''], JArr [JStr ''100'', JStr ''1'']] =
     [(99, 2), (100, 1)]"
  "levelChanges exampleParseFloat [JArr [JStr ''101'', JStr ''1'']] = [(101, 1)]"
  by (simp_all add: example_levels_valid wireChange_def exampleParseFloat_def)

lemma example_snapshots_valid:
  "isValidSnapshot exampleParseFloat snapshotZeroQty"
  "isValidSnapshot exampleParseFloat snapshotPlain"
  by (simp_all add: isValidSnapshot_def snapshotZeroQty_def snapshotPlain_def example_levels_valid)

text \<open>
  Claim C8 as stated fails on a level of quantity 0, which \<open>isValidSnapshot\<close> accepts and
  \<open>addBid\<close> does not store: the snapshot has the bid \<open>(100, 0)\<close>, the book has no bid.
\<close>

theorem snapshot_round_trip_counterexample:
  "isValidSnapshot exampleParseFloat snapshotZeroQty \<and>
   sn_bids snapshotZeroQty = JArr [JArr [JStr ''100'', JStr ''0'']] \<and>
   set (levelChanges exampleParseFloat [JArr [JStr ''100'', JStr ''0'']]) = {(100, 0)} \<and>
   fst (setSnapshot exampleParseFloat 1 ''btcusdt'' snapshotZeroQty emptyManager) = Returned True \<and>
   map_option (\<lambda>ob. ss_bids (getSnapshot None ob))
     (getOrderBook ''btcusdt''
        (snd (setSnapshot exampleParseFloat 1 ''btcusdt'' snapshotZeroQty emptyManager))) = Some []"
proof -
  have b: "sn_bids snapshotZeroQty = JArr [JArr [JStr ''100'', JStr ''0'']]"
    by (simp add: snapshotZeroQty_def)
  have s: "setSnapshot exampleParseFloat 1 ''btcusdt'' snapshotZeroQty emptyManager =
     (Returned True,
      storeBook ''btcusdt''
        (updateLastUpdateId 1 10
           (addAsk 1 101 1 1 (addBid 1 100 0 1 (clear 1 (new_OrderBook 1 ''btcusdt'')))))
        (snd (createOrderBook 1 ''btcusdt'' emptyManager)))"
    by (simp add: setSnapshot_def example_snapshots_valid getOrderBook_def emptyManager_def
        createOrderBook_def Let_def)
       (simp add: snapshotZeroQty_def bidStep_def askStep_def example_levels_valid
        sanitizePriceLevel_def exampleParseFloat_def)
  have g: "map_option (\<lambda>ob. ss_bids (getSnapshot None ob))
     (getOrderBook ''btcusdt''
        (snd (setSnapshot exampleParseFloat 1 ''btcusdt'' snapshotZeroQty emptyManager))) = Some []"
    unfolding s
    by (simp add: getOrderBook_def storeBook_def getSnapshot_def getBids_def sortedBids_def
        updateLastUpdateId_def addAsk_def addBid_def clear_def new_OrderBook_def)
  from example_snapshots_valid(1) b example_changes(1) s g show ?thesis
    by simp
qed

theorem snapshot_round_trip_witness:
  "isValidSnapshot exampleParseFloat snapshotPlain \<and>
   fst (setSnapshot exampleParseFloat 1 ''btcusdt'' snapshotPlain manager100) = Returned True \<and>
   map_option (\<lambda>ob. levelPairs (ss_bids (getSnapshot None ob)))
     (getOrderBook ''btcusdt''
        (snd (setSnapshot exampleParseFloat 1 ''btcusdt'' snapshotPlain manager100))) =
     Some {(99, 2), (100, 1)} \<and>
   map_option (\<lambda>ob. levelPairs (ss_asks (getSnapshot None ob)))
     (getOrderBook ''btcusdt''
        (snd (setSnapshot exampleParseFloat 1 ''btcusdt'' snapshotPlain manager100))) =
     Some {(101, 1)} \<and>
   map_option (\<lambda>ob. ss_lastUpdateId (getSnapshot None ob))
     (getOrderBook ''btcusdt''
        (snd (setSnapshot exampleParseFloat 1 ''btcusdt'' snapshotPlain manager100))) = Some 10"
proof -
  let ?r = "setSnapshot exampleParseFloat 1 ''btcusdt'' snapshotPlain manager100"
  from snapshot_round_trip[OF example_snapshots_valid(2) refl, of 1 "''btcusdt''" manager100]
  obtain ob' bs as where r: "fst ?r = Returned True"
    "sn_bids snapshotPlain = JArr bs" "sn_asks snapshotPlain = JArr as"
    "getOrderBook ''btcusdt'' (snd ?r) = Some ob'"
    "ss_lastUpdateId (getSnapshot None ob') = sn_lastUpdateId snapshotPlain"
    "distinct (map fst (levelChanges exampleParseFloat bs)) \<and>
       (\<forall>(p, q)\<in>set (levelChanges exampleParseFloat bs). 0 < q) \<longrightarrow>
     levelPairs (ss_bids (getSnapshot None ob')) = set (levelChanges exampleParseFloat bs)"
    "distinct (map fst (levelChanges exampleParseFloat as)) \<and>
       (\<forall>(p, q)\<in>set (levelChanges exampleParseFloat as). 0 < q) \<longrightarrow>
     levelPairs (ss_asks (getSnapshot None ob')) = set (levelChanges exampleParseFloat as)"
    by blast
  from r(2) have bs: "bs = [JArr [JStr ''99'', JStr ''2''], JArr [JStr ''100'', JStr ''1'']]"
    by (simp add: snapshotPlain_def)
  from r(3) have as: "as = [JArr [JStr ''101'', JStr ''1'']]"
    by (simp add: snapshotPlain_def)
  from r(6) have pb: "levelPairs (ss_bids (getSnapshot None ob')) = {(99, 2), (100, 1)}"
    unfolding bs example_changes by simp
  from r(7) have pa: "levelPairs (ss_asks (getSnapshot None ob')) = {(101, 1)}"
    unfolding as example_changes by simp
  from r(5) have id: "ss_lastUpdateId (getSnapshot None ob') = 10"
    by (simp add: snapshotPlain_def)
  from example_snapshots_valid(2) r(1,4) pb pa id show ?thesis
    by simp
qed

end
